theory Spec2Isabelle
  imports Complex_Main "HOL-Library.Multiset"
begin

section \<open>Python values and the builtin operations the driver uses\<close>

text \<open>
  The driver \<^verbatim>\<open>trainer/task.py\<close> is dynamically typed: what \<^verbatim>\<open>json.loads\<close> returns
  for \<^verbatim>\<open>TF_CONFIG\<close> may be any JSON value, and the code applies \<^verbatim>\<open>in\<close>, subscripting,
  \<^verbatim>\<open>==\<close> and \<^verbatim>\<open>'%d' %\<close> to it without checking its type. The values are
  therefore modelled as one datatype, and every operation returns the exception it raises
  as a value (\<open>Inl\<close>).

  A Python float is an IEEE double: a finite one is given by its exact value, which is
  a rational number.
\<close>

datatype pyfloat = Finite rat | PosInf | NegInf | NaN

datatype pyval =
    PNone
  | PBool bool
  | PInt int
  | PFloat pyfloat
  | PStr string
  | PList "pyval list"
  | PDict "(string \<times> pyval) list"

datatype error =
    TypeError
  | ValueError
  | OverflowError
  | KeyError
  | SystemExit int

text \<open>Sequencing of two computations that may raise: the first exception wins.\<close>

definition bind :: "error + 'a \<Rightarrow> ('a \<Rightarrow> error + 'b) \<Rightarrow> error + 'b" where
  "bind m f = (case m of Inl e \<Rightarrow> Inl e | Inr x \<Rightarrow> f x)"

text \<open>Truth value testing, as \<^verbatim>\<open>if x\<close> and \<^verbatim>\<open>x and y\<close> do it.\<close>

fun truthy :: "pyval \<Rightarrow> bool" where
  "truthy PNone = False"
| "truthy (PBool b) = b"
| "truthy (PInt i) = (i \<noteq> 0)"
| "truthy (PFloat (Finite q)) = (q \<noteq> 0)"
| "truthy (PFloat _) = True"
| "truthy (PStr s) = (s \<noteq> [])"
| "truthy (PList xs) = (xs \<noteq> [])"
| "truthy (PDict kvs) = (kvs \<noteq> [])"

text \<open>\<^verbatim>\<open>needle in hay\<close> for two strings: \<open>needle\<close> occurs as a substring.\<close>

fun str_contains :: "string \<Rightarrow> string \<Rightarrow> bool" where
  "str_contains [] needle = (needle = [])"
| "str_contains (c # cs) needle =
     (take (length needle) (c # cs) = needle \<or> str_contains cs needle)"

text \<open>
  \<^verbatim>\<open>key in x\<close> for a string \<open>key\<close>: a key of a dict, an element of a list, a
  substring of a string; any other operand is not a container and raises
  \<^verbatim>\<open>TypeError\<close>.
\<close>

fun py_contains :: "pyval \<Rightarrow> string \<Rightarrow> error + bool" where
  "py_contains (PDict kvs) key = Inr (map_of kvs key \<noteq> None)"
| "py_contains (PList xs) key = Inr (PStr key \<in> set xs)"
| "py_contains (PStr s) key = Inr (str_contains s key)"
| "py_contains _ key = Inl TypeError"

text \<open>
  \<^verbatim>\<open>x[key]\<close> for a string \<open>key\<close>: the value of a dict (\<^verbatim>\<open>KeyError\<close> when the
  key is missing); lists and strings take integer indices only and every other value
  is not subscriptable (\<^verbatim>\<open>TypeError\<close>).
\<close>

fun py_getitem :: "pyval \<Rightarrow> string \<Rightarrow> error + pyval" where
  "py_getitem (PDict kvs) key =
     (case map_of kvs key of None \<Rightarrow> Inl KeyError | Some v \<Rightarrow> Inr v)"
| "py_getitem _ key = Inl TypeError"

text \<open>Decimal digits of a natural number, most significant first.\<close>

definition digit_char :: "nat \<Rightarrow> char" where
  "digit_char d = ''0123456789'' ! d"

fun digits10 :: "nat \<Rightarrow> string" where
  "digits10 n =
     (if n < 10 then [digit_char n] else digits10 (n div 10) @ [digit_char (n mod 10)])"

declare digits10.simps [simp del]

definition str_of_int :: "int \<Rightarrow> string" where
  "str_of_int i = (if i < 0 then CHR ''-'' # digits10 (nat (- i)) else digits10 (nat i))"

text \<open>\<^verbatim>\<open>int(x)\<close> of a finite float rounds towards zero.\<close>

definition trunc :: "rat \<Rightarrow> int" where
  "trunc q = (if 0 \<le> q then \<lfloor>q\<rfloor> else \<lceil>q\<rceil>)"

text \<open>
  \<^verbatim>\<open>'%d' % x\<close> with a single, non-tuple operand. An int is printed in decimal; a bool
  is an int (\<^verbatim>\<open>True\<close> is 1); a float is first converted with \<^verbatim>\<open>int()\<close>, which raises
  \<^verbatim>\<open>ValueError\<close> for a NaN and \<^verbatim>\<open>OverflowError\<close> for an infinity; for every other
  value "a real number is required" (\<^verbatim>\<open>TypeError\<close>).
\<close>

fun format_d :: "pyval \<Rightarrow> error + string" where
  "format_d (PInt i) = Inr (str_of_int i)"
| "format_d (PBool b) = Inr (str_of_int (if b then 1 else 0))"
| "format_d (PFloat (Finite q)) = Inr (str_of_int (trunc q))"
| "format_d (PFloat NaN) = Inl ValueError"
| "format_d (PFloat _) = Inl OverflowError"
| "format_d _ = Inl TypeError"

section \<open>The device filters of the session configuration\<close>

text \<open>\<^verbatim>\<open>tf.ConfigProto(device_filters=...)\<close>: the only field the driver sets.\<close>

record ConfigProto =
  device_filters :: "string list"

text \<open>\<^verbatim>\<open>os.environ.get(name, default)\<close>; the environment maps names to strings.\<close>

definition os_environ_get :: "(string \<rightharpoonup> string) \<Rightarrow> string \<Rightarrow> string \<Rightarrow> string" where
  "os_environ_get environ name dflt = (case environ name of None \<Rightarrow> dflt | Some s \<Rightarrow> s)"

text \<open>
  The guard of \<^verbatim>\<open>_get_session_config_from_env_var\<close> (lines 112-113):
  \<^verbatim>\<open>tf_config and 'task' in tf_config and 'type' in tf_config['task'] and
  'index' in tf_config['task']\<close>,
  evaluated left to right and stopping at the first false operand.
\<close>

definition task_type_and_index_present :: "pyval \<Rightarrow> error + bool" where
  "task_type_and_index_present tf_config =
     (if \<not> truthy tf_config then Inr False
      else bind (py_contains tf_config ''task'') (\<lambda>has_task.
        if \<not> has_task then Inr False
        else bind (py_getitem tf_config ''task'') (\<lambda>task.
          bind (py_contains task ''type'') (\<lambda>has_type.
            if \<not> has_type then Inr False
            else bind (py_getitem tf_config ''task'') (\<lambda>task'.
              py_contains task' ''index'')))))"

text \<open>
  \<^verbatim>\<open>_get_session_config_from_env_var\<close> (lines 108-123). \<^verbatim>\<open>json.loads\<close> belongs to
  Python's library and is a parameter: it maps a text to the value it denotes or to the
  exception it raises. \<open>None\<close> is Python's \<^verbatim>\<open>None\<close>, "no restriction".
\<close>

definition get_session_config_from_env_var ::
  "(string \<Rightarrow> error + pyval) \<Rightarrow> (string \<rightharpoonup> string) \<Rightarrow> error + ConfigProto option" where
  "get_session_config_from_env_var json_loads environ =
     bind (json_loads (os_environ_get environ ''TF_CONFIG'' ''{}'')) (\<lambda>tf_config.
     bind (task_type_and_index_present tf_config) (\<lambda>present.
       if present then
         bind (py_getitem tf_config ''task'') (\<lambda>task.
         bind (py_getitem task ''type'') (\<lambda>task_type.
           if task_type = PStr ''master'' then
             Inr (Some \<lparr>device_filters = [''/job:ps'', ''/job:master'']\<rparr>)
           else if task_type = PStr ''worker'' then
             bind (py_getitem task ''index'') (\<lambda>index.
             bind (format_d index) (\<lambda>digits.
               Inr (Some \<lparr>device_filters = [''/job:ps'', ''/job:worker/task:'' @ digits]\<rparr>)))
           else Inr None))
       else Inr None))"

text \<open>
  A decoder for the worked examples below: it knows one text and the value that text
  denotes, and rejects every other text as \<^verbatim>\<open>json.loads\<close> rejects malformed input.
\<close>

definition decodes :: "string \<Rightarrow> pyval \<Rightarrow> string \<Rightarrow> error + pyval" where
  "decodes text v s = (if s = text then Inr v else Inl ValueError)"

subsection \<open>Decimal formatting is injective\<close>

definition digit_val :: "char \<Rightarrow> nat" where
  "digit_val c = of_char c - 48"

definition val10 :: "string \<Rightarrow> nat" where
  "val10 s = foldl (\<lambda>a c. 10 * a + digit_val c) 0 s"

lemma lt10_cases:
  "(d::nat) < 10 \<Longrightarrow>
     d = 0 \<or> d = 1 \<or> d = 2 \<or> d = 3 \<or> d = 4 \<or> d = 5 \<or> d = 6 \<or> d = 7 \<or> d = 8 \<or> d = 9"
  by arith

lemma digit_val_digit_char: "d < 10 \<Longrightarrow> digit_val (digit_char d) = d"
  using lt10_cases [of d] by (auto simp add: digit_val_def digit_char_def)

lemma digit_char_in_digits: "d < 10 \<Longrightarrow> digit_char d \<in> set ''0123456789''"
  using lt10_cases [of d] by (auto simp add: digit_char_def)

lemma val10_snoc: "val10 (s @ [c]) = 10 * val10 s + digit_val c"
  by (simp add: val10_def)

lemma val10_digits10: "val10 (digits10 n) = n"
proof (induction n rule: digits10.induct)
  case (1 n)
  show ?case
  proof (cases "n < 10")
    case True
    then show ?thesis
      by (simp add: digits10.simps [of n] val10_def digit_val_digit_char)
  next
    case False
    with 1 have "val10 (digits10 (n div 10)) = n div 10" by simp
    with False show ?thesis
      by (simp add: digits10.simps [of n] val10_snoc digit_val_digit_char)
  qed
qed

lemma digits10_inject: "digits10 m = digits10 n \<Longrightarrow> m = n"
  by (metis val10_digits10)

lemma set_digits10: "set (digits10 n) \<subseteq> set ''0123456789''"
proof (induction n rule: digits10.induct)
  case (1 n)
  show ?case
  proof (cases "n < 10")
    case True
    then show ?thesis
      using digit_char_in_digits [of n] by (simp add: digits10.simps [of n])
  next
    case False
    with 1 have "set (digits10 (n div 10)) \<subseteq> set ''0123456789''" by simp
    moreover have "digit_char (n mod 10) \<in> set ''0123456789''"
      by (rule digit_char_in_digits) simp
    ultimately show ?thesis
      using False by (simp add: digits10.simps [of n])
  qed
qed

lemma digits10_not_minus: "digits10 n \<noteq> CHR ''-'' # s"
proof
  assume "digits10 n = CHR ''-'' # s"
  then have "CHR ''-'' \<in> set (digits10 n)" by simp
  with set_digits10 [of n] show False by auto
qed

lemma str_of_int_inject: "str_of_int i = str_of_int j \<Longrightarrow> i = j"
proof -
  assume eq: "str_of_int i = str_of_int j"
  show "i = j"
  proof (cases "i < 0")
    case True
    note i = this
    show ?thesis
    proof (cases "j < 0")
      case True
      with i eq have "nat (- i) = nat (- j)"
        by (simp add: str_of_int_def digits10_inject)
      with i True show ?thesis by simp
    next
      case False
      with i eq show ?thesis
        using digits10_not_minus [of "nat j" "digits10 (nat (- i))"]
        by (simp add: str_of_int_def)
    qed
  next
    case False
    note i = this
    show ?thesis
    proof (cases "j < 0")
      case True
      with i eq show ?thesis
        using digits10_not_minus [of "nat i" "digits10 (nat (- j))"]
        by (simp add: str_of_int_def)
    next
      case False
      with i eq have "nat i = nat j"
        by (simp add: str_of_int_def digits10_inject)
      with i False show ?thesis by simp
    qed
  qed
qed

lemma str_of_int_eq_iff: "str_of_int i = str_of_int j \<longleftrightarrow> i = j"
  using str_of_int_inject by blast

subsection \<open>The master's filters\<close>

text \<open>
  Claim C1, as the code has it. For every cluster specification whose \<open>task\<close> is an
  object with \<open>type\<close> equal to \<^verbatim>\<open>"master"\<close> and an \<open>index\<close> field of any value
  (other fields, such as \<open>cluster\<close>, may be present), the derivation returns a
  configuration whose device filters are exactly \<^verbatim>\<open>/job:ps\<close> and \<^verbatim>\<open>/job:master\<close>, in
  this order: each filter starts with a slash.
\<close>

theorem master_device_filters:
  assumes "json_loads (os_environ_get environ ''TF_CONFIG'' ''{}'') = Inr (PDict kvs)"
    and "map_of kvs ''task'' = Some (PDict task)"
    and "map_of task ''type'' = Some (PStr ''master'')"
    and "map_of task ''index'' = Some n"
  shows "get_session_config_from_env_var json_loads environ =
           Inr (Some \<lparr>device_filters = [''/job:ps'', ''/job:master'']\<rparr>)"
  using assms
  by (auto simp add: get_session_config_from_env_var_def task_type_and_index_present_def
      bind_def)

text \<open>The theorem at \<^verbatim>\<open>{"task": {"type": "master", "index": 0}}\<close>.\<close>

theorem master_device_filters_witness:
  "get_session_config_from_env_var
     (decodes ''{\"task\": {\"type\": \"master\", \"index\": 0}}''
        (PDict [(''task'', PDict [(''type'', PStr ''master''), (''index'', PInt 0)])]))
     [''TF_CONFIG'' \<mapsto> ''{\"task\": {\"type\": \"master\", \"index\": 0}}'']
   = Inr (Some \<lparr>device_filters = [''/job:ps'', ''/job:master'']\<rparr>)"
  by (rule master_device_filters
      [where kvs = "[(''task'', PDict [(''type'', PStr ''master''), (''index'', PInt 0)])]"
         and task = "[(''type'', PStr ''master''), (''index'', PInt 0)]" and n = "PInt 0"])
    (simp_all add: decodes_def os_environ_get_def)

text \<open>
  Claim C1 as the specification words it names the filters \<^verbatim>\<open>job:ps\<close> and
  \<^verbatim>\<open>job:master\<close>, without the slash. At \<^verbatim>\<open>{"task": {"type": "master", "index": 0}}\<close>
  the code returns the two filters with their slashes, and the string \<^verbatim>\<open>job:ps\<close> that
  the claim names is not one of them.
\<close>

theorem master_filters_counterexample:
  "get_session_config_from_env_var
     (decodes ''{\"task\": {\"type\": \"master\", \"index\": 0}}''
        (PDict [(''task'', PDict [(''type'', PStr ''master''), (''index'', PInt 0)])]))
     [''TF_CONFIG'' \<mapsto> ''{\"task\": {\"type\": \"master\", \"index\": 0}}'']
   = Inr (Some \<lparr>device_filters = [''/job:ps'', ''/job:master'']\<rparr>)
   \<and> ''job:ps'' \<notin> set [''/job:ps'', ''/job:master'']"
  by (simp add: get_session_config_from_env_var_def task_type_and_index_present_def
      bind_def decodes_def os_environ_get_def)

subsection \<open>A worker's filters\<close>

text \<open>
  Claim C2, as the code has it. For every cluster specification whose \<open>task\<close> is an
  object with \<open>type\<close> equal to \<^verbatim>\<open>"worker"\<close> and an integer \<open>index\<close> \<open>i\<close>, the
  derivation returns a configuration whose device filters are exactly \<^verbatim>\<open>/job:ps\<close> and
  \<^verbatim>\<open>/job:worker/task:\<close> followed by \<open>i\<close> in decimal, in this order; each filter
  starts with a slash. The index enters the result only as this decimal suffix of the
  second filter, and different indices give different suffixes.
\<close>

theorem worker_device_filters:
  assumes "json_loads (os_environ_get environ ''TF_CONFIG'' ''{}'') = Inr (PDict kvs)"
    and "map_of kvs ''task'' = Some (PDict task)"
    and "map_of task ''type'' = Some (PStr ''worker'')"
    and "map_of task ''index'' = Some (PInt i)"
  shows "get_session_config_from_env_var json_loads environ =
           Inr (Some \<lparr>device_filters = [''/job:ps'', ''/job:worker/task:'' @ str_of_int i]\<rparr>)
         \<and> (str_of_int j = str_of_int i \<longleftrightarrow> j = i)"
  using assms
  by (auto simp add: get_session_config_from_env_var_def task_type_and_index_present_def
      bind_def str_of_int_eq_iff)

text \<open>The theorem at \<^verbatim>\<open>{"task": {"type": "worker", "index": 3}}\<close>, against index 7.\<close>

theorem worker_device_filters_witness:
  "get_session_config_from_env_var
     (decodes ''{\"task\": {\"type\": \"worker\", \"index\": 3}}''
        (PDict [(''task'', PDict [(''type'', PStr ''worker''), (''index'', PInt 3)])]))
     [''TF_CONFIG'' \<mapsto> ''{\"task\": {\"type\": \"worker\", \"index\": 3}}'']
   = Inr (Some \<lparr>device_filters = [''/job:ps'', ''/job:worker/task:3'']\<rparr>)
   \<and> str_of_int 7 \<noteq> str_of_int 3"
  using worker_device_filters
      [where json_loads = "decodes ''{\"task\": {\"type\": \"worker\", \"index\": 3}}''
        (PDict [(''task'', PDict [(''type'', PStr ''worker''), (''index'', PInt 3)])])"
         and environ = "[''TF_CONFIG'' \<mapsto> ''{\"task\": {\"type\": \"worker\", \"index\": 3}}'']"
         and kvs = "[(''task'', PDict [(''type'', PStr ''worker''), (''index'', PInt 3)])]"
         and task = "[(''type'', PStr ''worker''), (''index'', PInt 3)]" and i = 3 and j = 7]
  by (simp add: decodes_def os_environ_get_def str_of_int_def digits10.simps digit_char_def)

text \<open>
  Claim C2 as the specification words it names the filters \<^verbatim>\<open>job:ps\<close> and
  \<^verbatim>\<open>job:worker/task:3\<close>, without the slash. At
  \<^verbatim>\<open>{"task": {"type": "worker", "index": 3}}\<close> the code returns the two filters with
  their slashes, and the string \<^verbatim>\<open>job:worker/task:3\<close> is not one of them.
\<close>

theorem worker_filters_counterexample:
  "get_session_config_from_env_var
     (decodes ''{\"task\": {\"type\": \"worker\", \"index\": 3}}''
        (PDict [(''task'', PDict [(''type'', PStr ''worker''), (''index'', PInt 3)])]))
     [''TF_CONFIG'' \<mapsto> ''{\"task\": {\"type\": \"worker\", \"index\": 3}}'']
   = Inr (Some \<lparr>device_filters = [''/job:ps'', ''/job:worker/task:3'']\<rparr>)
   \<and> ''job:worker/task:3'' \<notin> set [''/job:ps'', ''/job:worker/task:3'']"
  by (simp add: get_session_config_from_env_var_def task_type_and_index_present_def
      bind_def decodes_def os_environ_get_def str_of_int_def digits10.simps digit_char_def)

subsection \<open>No restriction\<close>

text \<open>
  Claim C4. The derivation returns \<^verbatim>\<open>None\<close>
  \<^item> when \<^verbatim>\<open>TF_CONFIG\<close> is absent from the environment (the default text \<^verbatim>\<open>{}\<close> is
    decoded, to the empty object);
  \<^item> when the decoded cluster specification is empty (or any other false value);
  \<^item> when it is an object with no \<open>task\<close> field;
  \<^item> when its \<open>task\<close> is an object with no \<open>type\<close> field or no \<open>index\<close> field.

  The guard applies \<^verbatim>\<open>in\<close> to whatever value \<open>task\<close> holds. A task that is
  \<^verbatim>\<open>null\<close>, a boolean or a number is not a container: it has neither field, and for it
  the derivation does not return \<^verbatim>\<open>None\<close> but raises \<^verbatim>\<open>TypeError\<close>.
\<close>

theorem no_restriction_without_task_type_or_index:
  "(environ ''TF_CONFIG'' = None \<and> json_loads ''{}'' = Inr (PDict [])
      \<longrightarrow> get_session_config_from_env_var json_loads environ = Inr None) \<and>
   (json_loads (os_environ_get environ ''TF_CONFIG'' ''{}'') = Inr tf_config \<and>
      (\<not> truthy tf_config \<or>
       (\<exists>kvs. tf_config = PDict kvs \<and>
          (map_of kvs ''task'' = None \<or>
           (\<exists>task. map_of kvs ''task'' = Some (PDict task) \<and>
              (map_of task ''type'' = None \<or> map_of task ''index'' = None)))))
      \<longrightarrow> get_session_config_from_env_var json_loads environ = Inr None) \<and>
   (json_loads (os_environ_get environ ''TF_CONFIG'' ''{}'') = Inr (PDict entries) \<and>
      map_of entries ''task'' = Some scalar \<and>
      (scalar = PNone \<or> (\<exists>b. scalar = PBool b) \<or> (\<exists>i. scalar = PInt i) \<or>
       (\<exists>x. scalar = PFloat x))
      \<longrightarrow> get_session_config_from_env_var json_loads environ = Inl TypeError)"
proof (intro conjI impI)
  assume "environ ''TF_CONFIG'' = None \<and> json_loads ''{}'' = Inr (PDict [])"
  then show "get_session_config_from_env_var json_loads environ = Inr None"
    by (simp add: get_session_config_from_env_var_def task_type_and_index_present_def
        bind_def os_environ_get_def)
next
  assume "json_loads (os_environ_get environ ''TF_CONFIG'' ''{}'') = Inr tf_config \<and>
      (\<not> truthy tf_config \<or>
       (\<exists>kvs. tf_config = PDict kvs \<and>
          (map_of kvs ''task'' = None \<or>
           (\<exists>task. map_of kvs ''task'' = Some (PDict task) \<and>
              (map_of task ''type'' = None \<or> map_of task ''index'' = None)))))"
  then show "get_session_config_from_env_var json_loads environ = Inr None"
    by (auto simp add: get_session_config_from_env_var_def task_type_and_index_present_def
        bind_def)
next
  assume "json_loads (os_environ_get environ ''TF_CONFIG'' ''{}'') = Inr (PDict entries) \<and>
      map_of entries ''task'' = Some scalar \<and>
      (scalar = PNone \<or> (\<exists>b. scalar = PBool b) \<or> (\<exists>i. scalar = PInt i) \<or>
       (\<exists>x. scalar = PFloat x))"
  then show "get_session_config_from_env_var json_loads environ = Inl TypeError"
    by (auto simp add: get_session_config_from_env_var_def task_type_and_index_present_def
        bind_def)
qed

text \<open>
  The theorem with \<^verbatim>\<open>TF_CONFIG\<close> absent, at
  \<^verbatim>\<open>{"cluster": {}, "task": {"type": "worker"}}\<close>, whose task lacks its index, and at
  \<^verbatim>\<open>{"task": 5}\<close>, whose task is a number.
\<close>

theorem no_restriction_without_task_type_or_index_witness:
  "get_session_config_from_env_var (decodes ''{}'' (PDict [])) Map.empty = Inr None \<and>
   get_session_config_from_env_var
     (decodes ''{\"cluster\": {}, \"task\": {\"type\": \"worker\"}}''
        (PDict [(''cluster'', PDict []), (''task'', PDict [(''type'', PStr ''worker'')])]))
     [''TF_CONFIG'' \<mapsto> ''{\"cluster\": {}, \"task\": {\"type\": \"worker\"}}'']
   = Inr None \<and>
   get_session_config_from_env_var
     (decodes ''{\"task\": 5}'' (PDict [(''task'', PInt 5)]))
     [''TF_CONFIG'' \<mapsto> ''{\"task\": 5}'']
   = Inl TypeError"
  using no_restriction_without_task_type_or_index
      [where json_loads = "decodes ''{}'' (PDict [])" and environ = Map.empty
         and tf_config = "PDict []" and entries = "[]" and scalar = PNone]
    no_restriction_without_task_type_or_index
      [where json_loads = "decodes ''{\"cluster\": {}, \"task\": {\"type\": \"worker\"}}''
          (PDict [(''cluster'', PDict []), (''task'', PDict [(''type'', PStr ''worker'')])])"
         and environ = "[''TF_CONFIG'' \<mapsto> ''{\"cluster\": {}, \"task\": {\"type\": \"worker\"}}'']"
         and tf_config = "PDict [(''cluster'', PDict []), (''task'', PDict [(''type'', PStr ''worker'')])]"
         and entries = "[]" and scalar = PNone]
    no_restriction_without_task_type_or_index
      [where json_loads = "decodes ''{\"task\": 5}'' (PDict [(''task'', PInt 5)])"
         and environ = "[''TF_CONFIG'' \<mapsto> ''{\"task\": 5}'']"
         and tf_config = "PDict [(''task'', PInt 5)]"
         and entries = "[(''task'', PInt 5)]" and scalar = "PInt 5"]
  by (simp add: decodes_def os_environ_get_def)

text \<open>
  The claim as it is worded fails at \<^verbatim>\<open>{"task": null}\<close>: this task lacks a type and
  an index, and yet \<^verbatim>\<open>'type' in None\<close> (line 112) raises \<^verbatim>\<open>TypeError\<close>; \<^verbatim>\<open>None\<close>
  is not returned.
\<close>

theorem task_null_counterexample:
  "get_session_config_from_env_var
     (decodes ''{\"task\": null}'' (PDict [(''task'', PNone)]))
     [''TF_CONFIG'' \<mapsto> ''{\"task\": null}'']
   = Inl TypeError
   \<and> get_session_config_from_env_var
     (decodes ''{\"task\": null}'' (PDict [(''task'', PNone)]))
     [''TF_CONFIG'' \<mapsto> ''{\"task\": null}'']
   \<noteq> Inr None"
  by (simp add: get_session_config_from_env_var_def task_type_and_index_present_def
      bind_def decodes_def os_environ_get_def)

text \<open>
  Claim C5. For every cluster specification whose \<open>task\<close> is an object with both a
  \<open>type\<close> and an \<open>index\<close> field, where the type is any value other than the strings
  \<^verbatim>\<open>"master"\<close> and \<^verbatim>\<open>"worker"\<close>, the derivation falls through both branches and
  returns \<^verbatim>\<open>None\<close>.
\<close>

theorem no_restriction_for_other_task_type:
  assumes "json_loads (os_environ_get environ ''TF_CONFIG'' ''{}'') = Inr (PDict kvs)"
    and "map_of kvs ''task'' = Some (PDict task)"
    and "map_of task ''type'' = Some task_type"
    and "map_of task ''index'' = Some n"
    and "task_type \<noteq> PStr ''master''" and "task_type \<noteq> PStr ''worker''"
  shows "get_session_config_from_env_var json_loads environ = Inr None"
  using assms
  by (auto simp add: get_session_config_from_env_var_def task_type_and_index_present_def
      bind_def)

text \<open>The theorem at \<^verbatim>\<open>{"task": {"type": "chief", "index": 0}}\<close>.\<close>

theorem no_restriction_for_other_task_type_witness:
  "get_session_config_from_env_var
     (decodes ''{\"task\": {\"type\": \"chief\", \"index\": 0}}''
        (PDict [(''task'', PDict [(''type'', PStr ''chief''), (''index'', PInt 0)])]))
     [''TF_CONFIG'' \<mapsto> ''{\"task\": {\"type\": \"chief\", \"index\": 0}}'']
   = Inr None"
  by (rule no_restriction_for_other_task_type
      [where kvs = "[(''task'', PDict [(''type'', PStr ''chief''), (''index'', PInt 0)])]"
         and task = "[(''type'', PStr ''chief''), (''index'', PInt 0)]"
         and task_type = "PStr ''chief''" and n = "PInt 0"])
    (simp_all add: decodes_def os_environ_get_def)

subsection \<open>Errors\<close>

text \<open>
  Claim C9. If \<^verbatim>\<open>TF_CONFIG\<close> holds a text for which \<^verbatim>\<open>json.loads\<close> raises, the
  derivation raises that same exception: the code has no handler around the call, and
  no configuration, not even \<^verbatim>\<open>None\<close>, is returned.
\<close>

theorem malformed_tf_config_raises:
  assumes "environ ''TF_CONFIG'' = Some raw" and "json_loads raw = Inl e"
  shows "get_session_config_from_env_var json_loads environ = Inl e"
  using assms
  by (simp add: get_session_config_from_env_var_def bind_def os_environ_get_def)

text \<open>The theorem at the text \<^verbatim>\<open>{task\<close>, which the decoder rejects.\<close>

theorem malformed_tf_config_raises_witness:
  "get_session_config_from_env_var (decodes ''{}'' (PDict [])) [''TF_CONFIG'' \<mapsto> ''{task''] =
     Inl ValueError"
  by (rule malformed_tf_config_raises [where raw = "''{task''"]) (simp_all add: decodes_def)

text \<open>
  Claim C10, as the code has it. For every cluster specification whose \<open>task\<close> is an
  object with \<open>type\<close> equal to \<^verbatim>\<open>"worker"\<close> and an \<open>index\<close> field, the derivation
  raises an error exactly when the index is not a number that \<^verbatim>\<open>%d\<close> can format: a
  string, \<^verbatim>\<open>null\<close>, an array or an object (\<^verbatim>\<open>TypeError\<close>), a NaN or an infinity.
  An integer, a boolean or a finite float index raises nothing.
\<close>

theorem worker_index_raises_iff_not_number:
  assumes "json_loads (os_environ_get environ ''TF_CONFIG'' ''{}'') = Inr (PDict kvs)"
    and "map_of kvs ''task'' = Some (PDict task)"
    and "map_of task ''type'' = Some (PStr ''worker'')"
    and "map_of task ''index'' = Some v"
  shows "(\<exists>e. get_session_config_from_env_var json_loads environ = Inl e) \<longleftrightarrow>
         (case v of PInt _ \<Rightarrow> False | PBool _ \<Rightarrow> False | PFloat (Finite _) \<Rightarrow> False
          | _ \<Rightarrow> True)"
  using assms
  by (cases v rule: format_d.cases)
    (auto simp add: get_session_config_from_env_var_def task_type_and_index_present_def
      bind_def)

text \<open>The theorem at \<^verbatim>\<open>{"task": {"type": "worker", "index": "3"}}\<close>.\<close>

theorem worker_index_raises_iff_not_number_witness:
  "get_session_config_from_env_var
     (decodes ''{\"task\": {\"type\": \"worker\", \"index\": \"3\"}}''
        (PDict [(''task'', PDict [(''type'', PStr ''worker''), (''index'', PStr ''3'')])]))
     [''TF_CONFIG'' \<mapsto> ''{\"task\": {\"type\": \"worker\", \"index\": \"3\"}}'']
   = Inl TypeError"
  using worker_index_raises_iff_not_number
      [where json_loads = "decodes ''{\"task\": {\"type\": \"worker\", \"index\": \"3\"}}''
        (PDict [(''task'', PDict [(''type'', PStr ''worker''), (''index'', PStr ''3'')])])"
         and environ = "[''TF_CONFIG'' \<mapsto> ''{\"task\": {\"type\": \"worker\", \"index\": \"3\"}}'']"
         and kvs = "[(''task'', PDict [(''type'', PStr ''worker''), (''index'', PStr ''3'')])]"
         and task = "[(''type'', PStr ''worker''), (''index'', PStr ''3'')]" and v = "PStr ''3''"]
  by (simp add: get_session_config_from_env_var_def task_type_and_index_present_def
      bind_def decodes_def os_environ_get_def)

text \<open>
  Claim C10 as stated says that every index that is not an integer raises. The JSON
  number \<^verbatim>\<open>3.5\<close> is not an integer, and \<^verbatim>\<open>'%d' % 3.5\<close> is \<^verbatim>\<open>'3'\<close>: at
  \<^verbatim>\<open>{"task": {"type": "worker", "index": 3.5}}\<close> the derivation returns a filter
  policy, for task 3.
\<close>

lemma trunc_7_2: "trunc (7 / 2) = 3"
  by code_simp

theorem worker_float_index_counterexample:
  "get_session_config_from_env_var
     (decodes ''{\"task\": {\"type\": \"worker\", \"index\": 3.5}}''
        (PDict [(''task'',
           PDict [(''type'', PStr ''worker''), (''index'', PFloat (Finite (7 / 2)))])]))
     [''TF_CONFIG'' \<mapsto> ''{\"task\": {\"type\": \"worker\", \"index\": 3.5}}'']
   = Inr (Some \<lparr>device_filters = [''/job:ps'', ''/job:worker/task:3'']\<rparr>)"
  by (simp add: get_session_config_from_env_var_def task_type_and_index_present_def
      bind_def decodes_def os_environ_get_def trunc_7_2 str_of_int_def digits10.simps
      digit_char_def)

section \<open>Training and evaluation\<close>

text \<open>
  \<^verbatim>\<open>train_and_evaluate\<close> (lines 126-169) assembles objects of the estimator framework
  and hands them to \<^verbatim>\<open>tf.estimator.train_and_evaluate\<close>. The framework and the module
  \<^verbatim>\<open>model\<close> are collaborators. An object of the framework is modelled by the record of
  the arguments the driver passes to its constructor, under the keyword names of the
  source. The two input functions are closures; each is given by the call of
  \<^verbatim>\<open>model.input_fn\<close> it makes when the framework invokes it.
\<close>

text \<open>The hyperparameters, as \<^verbatim>\<open>get_args\<close> declares them.\<close>

record hparams =
  train_files :: "string list"
  eval_files :: "string list"
  job_dir :: string
  train_steps :: int
  eval_steps :: int
  num_epochs :: int
  learning_rate :: pyfloat
  train_batch_size :: int
  eval_batch_size :: int

record RunConfig =
  session_config :: "ConfigProto option"
  save_checkpoints_steps :: int
  save_summary_steps :: int
  model_dir :: string

record input_fn_call =
  filename :: "string list"
  batch_size :: int
  shuffle :: bool

record TrainSpec =
  train_input_fn :: input_fn_call
  max_steps :: int

datatype model_function = serving_input_receiver_fn

record FinalExporter =
  exporter_name :: string
  exporter_serving_input_receiver_fn :: model_function

record EvalSpec =
  eval_input_fn :: input_fn_call
  steps :: int
  exporters :: "FinalExporter list"
  eval_name :: string

record build_estimator_call =
  config :: RunConfig
  estimator_learning_rate :: pyfloat
  hidden_units :: "int list"
  num_classes :: int

record train_and_evaluate_call =
  printed :: "string list"
  estimator :: build_estimator_call
  train_spec :: TrainSpec
  eval_spec :: EvalSpec

text \<open>
  The constructors \<^verbatim>\<open>tf.estimator.RunConfig\<close>, \<^verbatim>\<open>tf.estimator.TrainSpec\<close> and
  \<^verbatim>\<open>tf.estimator.EvalSpec\<close> validate their arguments and raise an exception for
  those they reject; \<^verbatim>\<open>RunConfig\<close> moreover reads \<^verbatim>\<open>TF_CONFIG\<close> from the environment
  by itself. They belong to the framework, so which arguments they reject is a
  parameter of the model: for each constructor, the exception it raises for given
  arguments, or \<open>None\<close> when it returns the object.
\<close>

record estimator_checks =
  RunConfig_raises :: "(string \<rightharpoonup> string) \<Rightarrow> RunConfig \<Rightarrow> error option"
  TrainSpec_raises :: "TrainSpec \<Rightarrow> error option"
  EvalSpec_raises :: "EvalSpec \<Rightarrow> error option"

definition construct :: "error option \<Rightarrow> 'a \<Rightarrow> error + 'a" where
  "construct raised object = (case raised of Some e \<Rightarrow> Inl e | None \<Rightarrow> Inr object)"

text \<open>
  The statements of the function in their order: the session configuration, the run
  configuration (line 130), the training specification (line 141), the exporter, the
  evaluation specification (line 152), the printed line, the estimator. The first
  exception ends the function. The result is what the function prints and the three
  arguments of its last statement, the call
  \<^verbatim>\<open>tf.estimator.train_and_evaluate(estimator, train_spec, eval_spec)\<close>, where the
  estimator is what \<^verbatim>\<open>model.build_estimator\<close> is asked to build.
\<close>

definition train_and_evaluate ::
  "estimator_checks \<Rightarrow> (string \<Rightarrow> error + pyval) \<Rightarrow> (string \<rightharpoonup> string) \<Rightarrow> hparams
     \<Rightarrow> error + train_and_evaluate_call" where
  "train_and_evaluate tf json_loads environ hparams =
     bind (get_session_config_from_env_var json_loads environ) (\<lambda>session_config'.
     let run_config' = \<lparr>session_config = session_config',
                         save_checkpoints_steps = 100,
                         save_summary_steps = 100,
                         model_dir = job_dir hparams\<rparr>
     in bind (construct (RunConfig_raises tf environ run_config') run_config') (\<lambda>run_config.
     let train_input_fn' = \<lparr>filename = train_files hparams,
                             batch_size = train_batch_size hparams,
                             shuffle = True\<rparr>;
         train_spec' = \<lparr>train_input_fn = train_input_fn', max_steps = train_steps hparams\<rparr>
     in bind (construct (TrainSpec_raises tf train_spec') train_spec') (\<lambda>train_spec''.
     let exporter = \<lparr>exporter_name = ''exporter'',
                      exporter_serving_input_receiver_fn = serving_input_receiver_fn\<rparr>;
         eval_input_fn' = \<lparr>filename = eval_files hparams,
                            batch_size = eval_batch_size hparams,
                            shuffle = False\<rparr>;
         eval_spec' = \<lparr>eval_input_fn = eval_input_fn',
                        steps = eval_steps hparams,
                        exporters = [exporter],
                        eval_name = ''iris-eval''\<rparr>
     in bind (construct (EvalSpec_raises tf eval_spec') eval_spec') (\<lambda>eval_spec''.
     let estimator' = \<lparr>config = run_config,
                        estimator_learning_rate = learning_rate hparams,
                        hidden_units = [10, 20, 10],
                        num_classes = 3\<rparr>
     in Inr \<lparr>printed = [''Model dir: '' @ model_dir run_config],
              estimator = estimator',
              train_spec = train_spec'',
              eval_spec = eval_spec''\<rparr>))))"

text \<open>
  Checks for the worked examples below. As the framework does, they reject an empty
  model directory, a step limit \<^verbatim>\<open>max_steps <= 0\<close> and a step count \<^verbatim>\<open>steps <= 0\<close>
  with \<^verbatim>\<open>ValueError\<close>; they accept everything else (the examples leave
  \<^verbatim>\<open>TF_CONFIG\<close> unset).
\<close>

definition rejects_empty_or_non_positive :: estimator_checks where
  "rejects_empty_or_non_positive =
     \<lparr>RunConfig_raises = (\<lambda>environ rc. if model_dir rc = [] then Some ValueError else None),
      TrainSpec_raises = (\<lambda>ts. if max_steps ts \<le> 0 then Some ValueError else None),
      EvalSpec_raises = (\<lambda>es. if steps es \<le> 0 then Some ValueError else None)\<rparr>"

text \<open>
  Claim C8. For every hyperparameter record, once the device filters are derived the
  orchestration constructs, in this order: a run configuration holding these filters,
  save intervals of 100 steps for checkpoints and for summaries, and the job directory
  as model directory; a training specification whose input function reads the training
  files in batches of the training batch size, shuffled, bounded by the training steps;
  an evaluation specification whose input function reads the evaluation files in
  batches of the evaluation batch size, not shuffled, for the evaluation steps, with
  one final exporter. When the framework accepts all three, the orchestration prints
  the model directory and reaches the framework call with them and with an estimator
  with hidden units 10, 20, 10, three classes and the record's learning rate. When the
  framework rejects one of them, the exception of the first one rejected is the outcome:
  nothing is printed and no estimator is built.
\<close>

theorem train_and_evaluate_builds:
  assumes "get_session_config_from_env_var json_loads environ = Inr filters"
  shows
    "let rc = \<lparr>session_config = filters, save_checkpoints_steps = 100,
               save_summary_steps = 100, model_dir = job_dir hp\<rparr>;
         ts = \<lparr>train_input_fn =
                 \<lparr>filename = train_files hp, batch_size = train_batch_size hp, shuffle = True\<rparr>,
               max_steps = train_steps hp\<rparr>;
         es = \<lparr>eval_input_fn =
                 \<lparr>filename = eval_files hp, batch_size = eval_batch_size hp, shuffle = False\<rparr>,
               steps = eval_steps hp,
               exporters = [\<lparr>exporter_name = ''exporter'',
                             exporter_serving_input_receiver_fn = serving_input_receiver_fn\<rparr>],
               eval_name = ''iris-eval''\<rparr>
     in (RunConfig_raises tf environ rc = None \<and> TrainSpec_raises tf ts = None \<and>
         EvalSpec_raises tf es = None
           \<longrightarrow> train_and_evaluate tf json_loads environ hp =
                 Inr \<lparr>printed = [''Model dir: '' @ job_dir hp],
                      estimator = \<lparr>config = rc,
                                    estimator_learning_rate = learning_rate hp,
                                    hidden_units = [10, 20, 10],
                                    num_classes = 3\<rparr>,
                      train_spec = ts,
                      eval_spec = es\<rparr>)
      \<and> (RunConfig_raises tf environ rc = Some e
           \<longrightarrow> train_and_evaluate tf json_loads environ hp = Inl e)
      \<and> (RunConfig_raises tf environ rc = None \<and> TrainSpec_raises tf ts = Some e
           \<longrightarrow> train_and_evaluate tf json_loads environ hp = Inl e)
      \<and> (RunConfig_raises tf environ rc = None \<and> TrainSpec_raises tf ts = None \<and>
         EvalSpec_raises tf es = Some e
           \<longrightarrow> train_and_evaluate tf json_loads environ hp = Inl e)"
  using assms by (simp add: train_and_evaluate_def construct_def bind_def Let_def)

text \<open>
  The theorem for the defaults of the command line, with \<^verbatim>\<open>TF_CONFIG\<close> absent, where
  every constructor accepts its arguments; 0.01 is the double
  \<open>5764607523034235 / 2\<^sup>5\<^sup>9\<close>.
\<close>

theorem train_and_evaluate_builds_witness:
  "train_and_evaluate rejects_empty_or_non_positive (decodes ''{}'' (PDict [])) Map.empty
       \<lparr>train_files = [''a.csv''], eval_files = [''b.csv''], job_dir = ''/tmp/out'',
        train_steps = 400, eval_steps = 100, num_epochs = 200,
        learning_rate = Finite (5764607523034235 / 2 ^ 59),
        train_batch_size = 32, eval_batch_size = 32\<rparr> =
     Inr \<lparr>printed = [''Model dir: /tmp/out''],
          estimator =
            \<lparr>config = \<lparr>session_config = None, save_checkpoints_steps = 100,
                        save_summary_steps = 100, model_dir = ''/tmp/out''\<rparr>,
             estimator_learning_rate = Finite (5764607523034235 / 2 ^ 59),
             hidden_units = [10, 20, 10],
             num_classes = 3\<rparr>,
          train_spec =
            \<lparr>train_input_fn = \<lparr>filename = [''a.csv''], batch_size = 32, shuffle = True\<rparr>,
             max_steps = 400\<rparr>,
          eval_spec =
            \<lparr>eval_input_fn = \<lparr>filename = [''b.csv''], batch_size = 32, shuffle = False\<rparr>,
             steps = 100,
             exporters = [\<lparr>exporter_name = ''exporter'',
                           exporter_serving_input_receiver_fn = serving_input_receiver_fn\<rparr>],
             eval_name = ''iris-eval''\<rparr>\<rparr>"
proof -
  have "get_session_config_from_env_var (decodes ''{}'' (PDict [])) Map.empty = Inr None"
    by (simp add: get_session_config_from_env_var_def task_type_and_index_present_def
        bind_def decodes_def os_environ_get_def)
  from train_and_evaluate_builds [OF this,
      where tf = rejects_empty_or_non_positive
        and hp = "\<lparr>train_files = [''a.csv''], eval_files = [''b.csv''], job_dir = ''/tmp/out'',
        train_steps = 400, eval_steps = 100, num_epochs = 200,
        learning_rate = Finite (5764607523034235 / 2 ^ 59),
        train_batch_size = 32, eval_batch_size = 32\<rparr>"]
  show ?thesis by (simp add: rejects_empty_or_non_positive_def Let_def)
qed

text \<open>
  The claim as it is worded, for every record, fails at a record with a training step
  limit of 0: \<^verbatim>\<open>TrainSpec\<close> (line 141) rejects \<^verbatim>\<open>max_steps=0\<close>, so that no evaluation
  specification and no estimator is built and the framework call is not reached.
\<close>

theorem train_steps_zero_counterexample:
  "train_and_evaluate rejects_empty_or_non_positive (decodes ''{}'' (PDict [])) Map.empty
       \<lparr>train_files = [''a.csv''], eval_files = [''b.csv''], job_dir = ''/tmp/out'',
        train_steps = 0, eval_steps = 100, num_epochs = 200,
        learning_rate = Finite (5764607523034235 / 2 ^ 59),
        train_batch_size = 32, eval_batch_size = 32\<rparr> = Inl ValueError"
  by (simp add: train_and_evaluate_def construct_def rejects_empty_or_non_positive_def
      get_session_config_from_env_var_def task_type_and_index_present_def
      bind_def decodes_def os_environ_get_def Let_def)

section \<open>Logging setup\<close>

text \<open>
  \<^verbatim>\<open>_setup_logging\<close> (lines 89-105) mutates the state of Python's \<^verbatim>\<open>logging\<close> module
  and the environment. The state is passed explicitly: the level and the handler list
  of the root logger, the handler list of the logger named \<^verbatim>\<open>tensorflow\<close>, and the
  environment. Handlers are objects, and \<^verbatim>\<open>logging\<close> compares them by identity; every
  handler therefore carries the identity it was created with, and the state holds the
  identity the next new object gets.
\<close>

datatype stream = Stdout | Stderr

record Handler =
  handler_id :: nat
  stream :: stream
  level :: nat

definition NOTSET :: nat where "NOTSET = 0"
definition INFO :: nat where "INFO = 20"
definition WARNING :: nat where "WARNING = 30"

record logging_state =
  root_level :: nat
  root_handlers :: "Handler list"
  tensorflow_handlers :: "Handler list"
  next_id :: nat
  os_environ :: "string \<rightharpoonup> string"

text \<open>
  \<^verbatim>\<open>Logger.addHandler\<close> appends a handler unless the list has it already, and
  \<^verbatim>\<open>Logger.removeHandler\<close> removes it if the list has it.
\<close>

definition addHandler :: "Handler list \<Rightarrow> Handler \<Rightarrow> Handler list" where
  "addHandler handlers hdlr = (if \<not> (hdlr \<in> set handlers) then handlers @ [hdlr] else handlers)"

definition removeHandler :: "Handler list \<Rightarrow> Handler \<Rightarrow> Handler list" where
  "removeHandler handlers hdlr = (if hdlr \<in> set handlers then remove1 hdlr handlers else handlers)"

text \<open>
  The loop
  \<^verbatim>\<open>while tf_logger.handlers: tf_logger.removeHandler(tf_logger.handlers[0])\<close>;
  every turn shortens the list.
\<close>

function remove_handlers :: "Handler list \<Rightarrow> Handler list" where
  "remove_handlers handlers =
     (if handlers \<noteq> [] then remove_handlers (removeHandler handlers (hd handlers))
      else handlers)"
  by pat_completeness auto
termination
  by (relation "measure length") (auto simp add: removeHandler_def length_remove1)

declare remove_handlers.simps [simp del]

text \<open>
  \<^verbatim>\<open>_setup_logging\<close>: the root level becomes \<^verbatim>\<open>INFO\<close>, the handlers of the
  \<^verbatim>\<open>tensorflow\<close> logger are removed, a new \<^verbatim>\<open>StreamHandler(sys.stdout)\<close> is created, set
  to level \<^verbatim>\<open>INFO\<close> and added to the root logger, and \<^verbatim>\<open>TF_CPP_MIN_LOG_LEVEL\<close> is set.
\<close>

definition setup_logging :: "logging_state \<Rightarrow> logging_state" where
  "setup_logging st =
     (let st1 = st\<lparr>root_level := INFO\<rparr>;
          st2 = st1\<lparr>tensorflow_handlers := remove_handlers (tensorflow_handlers st1)\<rparr>;
          stdout_handler = \<lparr>handler_id = next_id st2, stream = Stdout, level = NOTSET\<rparr>;
          st3 = st2\<lparr>next_id := Suc (next_id st2)\<rparr>;
          stdout_handler' = stdout_handler\<lparr>level := INFO\<rparr>;
          st4 = st3\<lparr>root_handlers := addHandler (root_handlers st3) stdout_handler'\<rparr>
      in st4\<lparr>os_environ := (os_environ st4)(''TF_CPP_MIN_LOG_LEVEL'' \<mapsto> ''3'')\<rparr>)"

text \<open>
  A log call on the root logger, \<^verbatim>\<open>logging.getLogger().log(levelno, msg)\<close>: the streams
  the message is written to, in order. The logger drops the record unless its level
  admits it (\<^verbatim>\<open>isEnabledFor\<close>); \<^verbatim>\<open>callHandlers\<close> passes it to every handler whose level
  admits it, and to the handler of last resort (standard error, \<^verbatim>\<open>WARNING\<close>) when the
  logger has no handler at all.
\<close>

definition root_log :: "logging_state \<Rightarrow> nat \<Rightarrow> stream list" where
  "root_log st levelno =
     (if \<not> (root_level st \<le> levelno) then []
      else if root_handlers st = [] then (if WARNING \<le> levelno then [Stderr] else [])
      else map stream (filter (\<lambda>hdlr. level hdlr \<le> levelno) (root_handlers st)))"

lemma remove_handlers_empty: "remove_handlers handlers = []"
proof (induction handlers rule: remove_handlers.induct)
  case (1 handlers)
  show ?case
  proof (cases "handlers = []")
    case True
    then show ?thesis by (simp add: remove_handlers.simps [of "[]"])
  next
    case False
    with 1 show ?thesis by (simp add: remove_handlers.simps [of handlers])
  qed
qed

text \<open>The handlers that \<open>n\<close> runs of the setup create, from identity \<open>k\<close> on.\<close>

definition new_handlers :: "nat \<Rightarrow> nat \<Rightarrow> Handler list" where
  "new_handlers k n = map (\<lambda>i. \<lparr>handler_id = i, stream = Stdout, level = INFO\<rparr>) [k..<k + n]"

lemma setup_logging_fields:
  "root_handlers (setup_logging s) =
     addHandler (root_handlers s) \<lparr>handler_id = next_id s, stream = Stdout, level = INFO\<rparr>"
  "next_id (setup_logging s) = Suc (next_id s)"
  "root_level (setup_logging s) = INFO"
  "tensorflow_handlers (setup_logging s) = []"
  "os_environ (setup_logging s) = (os_environ s)(''TF_CPP_MIN_LOG_LEVEL'' \<mapsto> ''3'')"
  by (simp_all add: setup_logging_def Let_def remove_handlers_empty)

lemma setup_logging_n:
  "root_handlers st = [] \<Longrightarrow>
     root_handlers ((setup_logging ^^ n) st) = new_handlers (next_id st) n
     \<and> next_id ((setup_logging ^^ n) st) = next_id st + n
     \<and> (0 < n \<longrightarrow> root_level ((setup_logging ^^ n) st) = INFO)"
proof (induction n)
  case 0
  then show ?case by (simp add: new_handlers_def)
next
  case (Suc n)
  then have hs: "root_handlers ((setup_logging ^^ n) st) = new_handlers (next_id st) n"
    and nx: "next_id ((setup_logging ^^ n) st) = next_id st + n" by simp_all
  have fresh: "\<lparr>handler_id = next_id st + n, stream = Stdout, level = INFO\<rparr>
      \<notin> set (new_handlers (next_id st) n)"
    by (auto simp add: new_handlers_def)
  have "new_handlers k (Suc n) =
      new_handlers k n @ [\<lparr>handler_id = k + n, stream = Stdout, level = INFO\<rparr>]" for k
    by (simp add: new_handlers_def)
  with hs nx fresh show ?case
    by (simp add: setup_logging_fields addHandler_def)
qed

text \<open>
  Claim C3, as the code has it. Every invocation of the logging setup creates a new
  stdout handler and appends it to the root logger: after \<open>n\<close> invocations in
  succession on a root logger that had no handler, a single log call at level
  \<^verbatim>\<open>INFO\<close> is written to standard output \<open>n\<close> times, once after one invocation and
  twice after two. What the setup repeats without change is the rest: the logger of the
  framework is left without handlers by every invocation.
\<close>

theorem setup_logging_adds_a_handler:
  assumes "root_handlers st = []"
  shows "root_log ((setup_logging ^^ n) st) INFO = replicate n Stdout
     \<and> tensorflow_handlers (setup_logging ((setup_logging ^^ n) st)) = []"
proof -
  from setup_logging_n [OF assms, of n]
  have hs: "root_handlers ((setup_logging ^^ n) st) = new_handlers (next_id st) n"
    and lv: "0 < n \<longrightarrow> root_level ((setup_logging ^^ n) st) = INFO" by simp_all
  have emitted:
    "map stream (filter (\<lambda>hdlr. level hdlr \<le> INFO) (new_handlers k n)) = replicate n Stdout"
    for k
    by (simp add: new_handlers_def map_replicate_const comp_def)
  have "root_log ((setup_logging ^^ n) st) INFO = replicate n Stdout"
  proof (cases "n = 0")
    case True
    with assms show ?thesis by (simp add: root_log_def INFO_def WARNING_def)
  next
    case False
    then have "new_handlers (next_id st) n \<noteq> []" by (simp add: new_handlers_def)
    with False hs lv emitted show ?thesis by (simp add: root_log_def)
  qed
  then show ?thesis by (simp add: setup_logging_fields)
qed

text \<open>
  A process as the driver finds it: the root logger at its initial level \<^verbatim>\<open>WARNING\<close>
  and without handlers, the \<^verbatim>\<open>tensorflow\<close> logger with the one handler the framework
  gave it (standard error).
\<close>

definition fresh_process :: logging_state where
  "fresh_process =
     \<lparr>root_level = WARNING, root_handlers = [],
      tensorflow_handlers = [\<lparr>handler_id = 0, stream = Stderr, level = NOTSET\<rparr>],
      next_id = 1, os_environ = Map.empty\<rparr>"

lemma setup_once:
  "setup_logging fresh_process =
     \<lparr>root_level = INFO,
      root_handlers = [\<lparr>handler_id = 1, stream = Stdout, level = INFO\<rparr>],
      tensorflow_handlers = [],
      next_id = 2, os_environ = [''TF_CPP_MIN_LOG_LEVEL'' \<mapsto> ''3'']\<rparr>"
  by (simp add: setup_logging_def fresh_process_def Let_def addHandler_def remove_handlers_empty)

lemma setup_twice:
  "setup_logging (setup_logging fresh_process) =
     \<lparr>root_level = INFO,
      root_handlers = [\<lparr>handler_id = 1, stream = Stdout, level = INFO\<rparr>,
                       \<lparr>handler_id = 2, stream = Stdout, level = INFO\<rparr>],
      tensorflow_handlers = [],
      next_id = 3, os_environ = [''TF_CPP_MIN_LOG_LEVEL'' \<mapsto> ''3'']\<rparr>"
  by (simp add: setup_once) (simp add: setup_logging_def Let_def addHandler_def remove_handlers_empty)

text \<open>The theorem for one invocation in this process: one line.\<close>

theorem setup_logging_adds_a_handler_witness:
  "root_log (setup_logging fresh_process) INFO = [Stdout]
     \<and> tensorflow_handlers (setup_logging (setup_logging fresh_process)) = []"
  using setup_logging_adds_a_handler [of fresh_process "Suc 0"]
  by (simp add: fresh_process_def)

text \<open>
  Claim C3 as stated says that two invocations leave at most one active handler and
  that the second does not change the handlers. In this process the second invocation
  adds a second handler to the root logger, and one log call at \<^verbatim>\<open>INFO\<close> is then
  written twice.
\<close>

theorem setup_logging_twice_counterexample:
  "length (root_handlers (setup_logging (setup_logging fresh_process))) = 2
     \<and> root_log (setup_logging (setup_logging fresh_process)) INFO = [Stdout, Stdout]
     \<and> root_handlers (setup_logging (setup_logging fresh_process))
         \<noteq> root_handlers (setup_logging fresh_process)"
proof -
  have once: "root_handlers (setup_logging fresh_process) =
      [\<lparr>handler_id = 1, stream = Stdout, level = INFO\<rparr>]"
    by (simp add: setup_once)
  have twice: "root_handlers (setup_logging (setup_logging fresh_process)) =
      [\<lparr>handler_id = 1, stream = Stdout, level = INFO\<rparr>,
       \<lparr>handler_id = 2, stream = Stdout, level = INFO\<rparr>]"
    by (simp add: setup_twice)
  have lines: "root_log (setup_logging (setup_logging fresh_process)) INFO = [Stdout, Stdout]"
    by (simp add: setup_twice root_log_def)
  show ?thesis by (simp add: once twice lines)
qed

section \<open>The command line\<close>

text \<open>
  \<^verbatim>\<open>get_args\<close> (lines 33-86) creates an \<^verbatim>\<open>argparse.ArgumentParser\<close>, adds nine
  arguments to it and returns \<^verbatim>\<open>parser.parse_args()\<close>. What the function does is
  decided by \<^verbatim>\<open>argparse\<close>, which belongs to Python's library. Its parsing algorithm
  is modelled here function by function from \<^verbatim>\<open>argparse.py\<close> of CPython 3.11, as far
  as a parser like this one uses it: optional arguments only, the prefix character
  \<^verbatim>\<open>-\<close>, the actions \<^verbatim>\<open>store\<close> and \<^verbatim>\<open>help\<close>, \<^verbatim>\<open>nargs\<close> absent or \<^verbatim>\<open>'+'\<close>,
  abbreviations allowed, no groups, no subparsers and no argument files.

  \<^item> The command line \<^verbatim>\<open>sys.argv[1:]\<close> is a parameter, a list of strings.
  \<^item> \<^verbatim>\<open>parser.error\<close> prints the usage and a message to standard error and exits with
    status 2: the exception \<open>SystemExit 2\<close>. The help action prints the help and exits
    with status 0: \<open>SystemExit 0\<close>.
  \<^item> The converters \<^verbatim>\<open>int\<close> and \<^verbatim>\<open>float\<close> given as \<^verbatim>\<open>type=\<close> are parameters: they
    map a string to a number, or to \<open>None\<close> when they raise \<^verbatim>\<open>ValueError\<close>.
  \<^item> The namespace returned is the list of its attributes with their values, in the
    order in which the attributes were first set.
\<close>

subsection \<open>The parser that \<^verbatim>\<open>get_args\<close> builds\<close>

text \<open>
  An action as \<^verbatim>\<open>add_argument\<close> creates it, with the attributes that parsing reads.
  \<^verbatim>\<open>nargs\<close> is \<^verbatim>\<open>None\<close> (one argument), \<^verbatim>\<open>'+'\<close> (one or more, a list) or 0 (the help
  action takes none); \<^verbatim>\<open>type\<close> is absent, \<^verbatim>\<open>int\<close> or \<^verbatim>\<open>float\<close>.
\<close>

datatype nargs = N_None | N_OneOrMore | N_Zero

datatype type_func = T_None | T_int | T_float

datatype action_class = Store | Help

definition SUPPRESS :: string where
  "SUPPRESS = ''==SUPPRESS==''"

record Action =
  option_strings :: "string list"
  dest :: string
  nargs :: nargs
  required :: bool
  type_func :: type_func
  default :: pyval
  action_class :: action_class

text \<open>
  The destination of an optional argument without \<^verbatim>\<open>dest=\<close>: its first long option
  string without the leading dashes, every other \<^verbatim>\<open>-\<close> replaced by \<^verbatim>\<open>_\<close>.
\<close>

definition dest_of :: "string \<Rightarrow> string" where
  "dest_of option_string =
     map (\<lambda>c. if c = CHR ''-'' then CHR ''_'' else c)
       (dropWhile (\<lambda>c. c = CHR ''-'') option_string)"

text \<open>
  The constructor adds the help action \<^verbatim>\<open>-h\<close>, \<^verbatim>\<open>--help\<close> (\<^verbatim>\<open>add_help=True\<close>), whose
  destination and default are \<^verbatim>\<open>SUPPRESS\<close>. Every call of \<^verbatim>\<open>add_argument\<close> in
  \<^verbatim>\<open>get_args\<close> gives one option string, perhaps \<^verbatim>\<open>nargs\<close>, \<^verbatim>\<open>required\<close>, \<^verbatim>\<open>type\<close> and
  \<^verbatim>\<open>default\<close>, and appends a store action to the parser's actions.
\<close>

definition HelpAction :: Action where
  "HelpAction =
     \<lparr>option_strings = [''-h'', ''--help''], dest = SUPPRESS, nargs = N_Zero,
      required = False, type_func = T_None, default = PStr SUPPRESS, action_class = Help\<rparr>"

definition StoreAction :: "string \<Rightarrow> nargs \<Rightarrow> bool \<Rightarrow> type_func \<Rightarrow> pyval \<Rightarrow> Action" where
  "StoreAction option_string n req ty dflt =
     \<lparr>option_strings = [option_string], dest = dest_of option_string, nargs = n,
      required = req, type_func = ty, default = dflt, action_class = Store\<rparr>"

definition ArgumentParser :: "Action list" where
  "ArgumentParser = [HelpAction]"

definition add_argument ::
  "Action list \<Rightarrow> string \<Rightarrow> nargs \<Rightarrow> bool \<Rightarrow> type_func \<Rightarrow> pyval \<Rightarrow> Action list" where
  "add_argument parser option_string n req ty dflt =
     parser @ [StoreAction option_string n req ty dflt]"

text \<open>
  The nine calls of lines 36-85 in their order. The default of the learning rate,
  \<^verbatim>\<open>0.01\<close>, is the double \<open>5764607523034235 / 2\<^sup>5\<^sup>9\<close>.
\<close>

definition parser :: "Action list" where
  "parser =
     (let parser = ArgumentParser;
          parser = add_argument parser ''--train-files'' N_OneOrMore True T_None PNone;
          parser = add_argument parser ''--eval-files'' N_OneOrMore True T_None PNone;
          parser = add_argument parser ''--job-dir'' N_None True T_None PNone;
          parser = add_argument parser ''--train-steps'' N_None False T_int (PInt 400);
          parser = add_argument parser ''--eval-steps'' N_None False T_int (PInt 100);
          parser = add_argument parser ''--num-epochs'' N_None False T_int (PInt 200);
          parser = add_argument parser ''--learning-rate'' N_None False T_float
                     (PFloat (Finite (5764607523034235 / 2 ^ 59)));
          parser = add_argument parser ''--train-batch-size'' N_None False T_int (PInt 32);
          parser = add_argument parser ''--eval-batch-size'' N_None False T_int (PInt 32)
      in parser)"

subsection \<open>Classifying the strings of the command line\<close>

text \<open>
  \<^verbatim>\<open>_option_string_actions\<close>: every option string with its action, in the order of
  registration. \<^verbatim>\<open>str.startswith\<close> and \<^verbatim>\<open>str.partition('=')\<close> are those of Python.
\<close>

definition option_string_actions :: "Action list \<Rightarrow> (string \<times> Action) list" where
  "option_string_actions p =
     concat (map (\<lambda>action. map (\<lambda>s. (s, action)) (option_strings action)) p)"

definition startswith :: "string \<Rightarrow> string \<Rightarrow> bool" where
  "startswith s pre = (take (length pre) s = pre)"

definition partition_eq :: "string \<Rightarrow> string \<times> string \<times> string" where
  "partition_eq s =
     (let rest = dropWhile (\<lambda>c. c \<noteq> CHR ''='') s
      in if rest = [] then (s, [], [])
         else (takeWhile (\<lambda>c. c \<noteq> CHR ''='') s, ''='', tl rest))"

text \<open>
  \<^verbatim>\<open>_negative_number_matcher\<close> is the regular expression \<^verbatim>\<open>^-\d+$|^-\d*\.\d+$\<close> applied
  with \<^verbatim>\<open>match\<close>, where \<^verbatim>\<open>$\<close> also matches before a final newline.
  \<^verbatim>\<open>_has_negative_number_optionals\<close> is non-empty when an option string of the parser
  looks like a negative number.
\<close>

definition is_digit :: "char \<Rightarrow> bool" where
  "is_digit c = (c \<in> set ''0123456789'')"

definition negative_number :: "string \<Rightarrow> bool" where
  "negative_number s =
     (case s of
        [] \<Rightarrow> False
      | c # body \<Rightarrow>
          c = CHR ''-'' \<and>
          (let rest = dropWhile is_digit body
           in (body \<noteq> [] \<and> rest = []) \<or>
              (case rest of
                 [] \<Rightarrow> False
               | d # fraction \<Rightarrow>
                   d = CHR ''.'' \<and> fraction \<noteq> [] \<and> list_all is_digit fraction)))"

definition negative_number_matcher :: "string \<Rightarrow> bool" where
  "negative_number_matcher s =
     (negative_number s \<or> (s \<noteq> [] \<and> last s = CHR 0x0A \<and> negative_number (butlast s)))"

definition has_negative_number_optionals :: "Action list \<Rightarrow> bool" where
  "has_negative_number_optionals p =
     list_ex (\<lambda>(s, action). negative_number_matcher s) (option_string_actions p)"

text \<open>
  An option tuple is \<^verbatim>\<open>(action, option_string, sep, explicit_arg)\<close>; the action is
  \<^verbatim>\<open>None\<close> for a string that looks like an option the parser does not know.

  \<^verbatim>\<open>_get_option_tuples\<close>: the interpretations of a string as an abbreviated option.
  A string with two leading dashes is cut at its first \<^verbatim>\<open>=\<close> and matches every option
  string that starts with the part before it. A string with one leading dash matches
  the option string equal to its first two characters, the rest being the explicit
  argument, and every option string that starts with the whole string.
\<close>

type_synonym option_tuple = "Action option \<times> string \<times> string option \<times> string option"

definition get_option_tuples :: "Action list \<Rightarrow> string \<Rightarrow> error + option_tuple list" where
  "get_option_tuples p option_string =
     (case option_string of
        c0 # c1 # _ \<Rightarrow>
          if c0 = CHR ''-'' \<and> c1 = CHR ''-'' then
            (let (option_prefix, sep, explicit_arg) = partition_eq option_string;
                 sep' = (if sep = [] then None else Some sep);
                 explicit_arg' = (if sep = [] then None else Some explicit_arg)
             in Inr (concat (map (\<lambda>(s, action).
                   if startswith s option_prefix then [(Some action, s, sep', explicit_arg')]
                   else []) (option_string_actions p))))
          else if c0 = CHR ''-'' \<and> c1 \<noteq> CHR ''-'' then
            (let option_prefix = option_string;
                 short_option_prefix = take 2 option_string;
                 short_explicit_arg = drop 2 option_string
             in Inr (concat (map (\<lambda>(s, action).
                   if s = short_option_prefix
                   then [(Some action, s, Some [], Some short_explicit_arg)]
                   else if startswith s option_prefix then [(Some action, s, None, None)]
                   else []) (option_string_actions p))))
          else Inl (SystemExit 2)
      | _ \<Rightarrow> Inl (SystemExit 2))"

text \<open>
  \<^verbatim>\<open>_parse_optional\<close>: \<open>None\<close> for a string meant as an argument (empty, not starting
  with a dash, a single dash, a negative number, or containing a space), otherwise its
  option tuple: the option string itself, the option string before an \<^verbatim>\<open>=\<close>, or its
  only interpretation as an abbreviation. A string with several interpretations is
  ambiguous, which is an error.
\<close>

definition parse_optional :: "Action list \<Rightarrow> string \<Rightarrow> error + option_tuple option" where
  "parse_optional p arg_string =
     (if arg_string = [] then Inr None
      else if hd arg_string \<noteq> CHR ''-'' then Inr None
      else case map_of (option_string_actions p) arg_string of
        Some action \<Rightarrow> Inr (Some (Some action, arg_string, None, None))
      | None \<Rightarrow>
          if length arg_string = 1 then Inr None
          else
            (let (option_string, sep, explicit_arg) = partition_eq arg_string
             in case (if sep \<noteq> [] then map_of (option_string_actions p) option_string
                      else None) of
                  Some action \<Rightarrow> Inr (Some (Some action, option_string, Some sep, Some explicit_arg))
                | None \<Rightarrow>
                    bind (get_option_tuples p arg_string) (\<lambda>option_tuples.
                      if length option_tuples > 1 then Inl (SystemExit 2)
                      else if length option_tuples = 1 then Inr (Some (hd option_tuples))
                      else if negative_number_matcher arg_string
                              \<and> \<not> has_negative_number_optionals p then Inr None
                      else if CHR '' '' \<in> set arg_string then Inr None
                      else Inr (Some (None, arg_string, None, None)))))"

text \<open>
  The first loop of \<^verbatim>\<open>_parse_known_args\<close> gives every string of the command line its
  pattern character: \<^verbatim>\<open>O\<close> for an option, with its option tuple, \<^verbatim>\<open>A\<close> for an argument,
  \<^verbatim>\<open>-\<close> for the string \<^verbatim>\<open>--\<close>, after which every string is an argument.
\<close>

datatype arg_pattern = PatA | PatO option_tuple | PatDash

fun arg_strings_pattern ::
  "Action list \<Rightarrow> string list \<Rightarrow> error + (string \<times> arg_pattern) list" where
  "arg_strings_pattern p [] = Inr []"
| "arg_strings_pattern p (arg_string # rest) =
     (if arg_string = ''--'' then Inr ((arg_string, PatDash) # map (\<lambda>s. (s, PatA)) rest)
      else bind (parse_optional p arg_string) (\<lambda>option_tuple.
           bind (arg_strings_pattern p rest) (\<lambda>pats.
             Inr ((arg_string, case option_tuple of None \<Rightarrow> PatA | Some t \<Rightarrow> PatO t) # pats))))"

subsection \<open>Consuming the options\<close>

text \<open>
  \<^verbatim>\<open>_match_argument\<close>: how many of the following strings an action takes. The
  pattern of \<^verbatim>\<open>nargs=None\<close> is \<^verbatim>\<open>(-*A-*)\<close>, that of \<^verbatim>\<open>'+'\<close> is \<^verbatim>\<open>(-*A[A-]*)\<close>, and for
  an optional action the dashes are removed from both: exactly one \<^verbatim>\<open>A\<close>, and all the
  \<^verbatim>\<open>A\<close> that follow, at least one. The help action takes none. No match is an error.
\<close>

definition match_argument :: "Action \<Rightarrow> arg_pattern list \<Rightarrow> error + nat" where
  "match_argument action pats =
     (case nargs action of
        N_None \<Rightarrow> (case pats of PatA # _ \<Rightarrow> Inr 1 | _ \<Rightarrow> Inl (SystemExit 2))
      | N_OneOrMore \<Rightarrow>
          (let n = length (takeWhile (\<lambda>pat. pat = PatA) pats)
           in if n = 0 then Inl (SystemExit 2) else Inr n)
      | N_Zero \<Rightarrow> Inr 0)"

text \<open>
  \<^verbatim>\<open>_get_value\<close> applies the converter of the action, an error when it raises;
  \<^verbatim>\<open>_get_values\<close> gives the single value for \<^verbatim>\<open>nargs=None\<close> and the list of values
  otherwise.
\<close>

definition get_value ::
  "(string \<Rightarrow> int option) \<Rightarrow> (string \<Rightarrow> pyfloat option) \<Rightarrow> Action \<Rightarrow> string \<Rightarrow> error + pyval" where
  "get_value py_int py_float action arg_string =
     (case type_func action of
        T_None \<Rightarrow> Inr (PStr arg_string)
      | T_int \<Rightarrow> (case py_int arg_string of None \<Rightarrow> Inl (SystemExit 2) | Some i \<Rightarrow> Inr (PInt i))
      | T_float \<Rightarrow>
          (case py_float arg_string of None \<Rightarrow> Inl (SystemExit 2) | Some x \<Rightarrow> Inr (PFloat x)))"

fun map_raise :: "('a \<Rightarrow> error + 'b) \<Rightarrow> 'a list \<Rightarrow> error + 'b list" where
  "map_raise f [] = Inr []"
| "map_raise f (x # xs) = bind (f x) (\<lambda>y. bind (map_raise f xs) (\<lambda>ys. Inr (y # ys)))"

definition get_values ::
  "(string \<Rightarrow> int option) \<Rightarrow> (string \<Rightarrow> pyfloat option) \<Rightarrow> Action \<Rightarrow> string list
     \<Rightarrow> error + pyval" where
  "get_values py_int py_float action arg_strings =
     (if length arg_strings = 1 \<and> nargs action = N_None
      then get_value py_int py_float action (hd arg_strings)
      else bind (map_raise (get_value py_int py_float action) arg_strings) (\<lambda>vs.
             Inr (PList vs)))"

text \<open>
  \<^verbatim>\<open>setattr(namespace, name, v)\<close>. The state of the second loop: the namespace, the
  actions seen so far and the strings nothing has consumed.
\<close>

fun setattr :: "(string \<times> pyval) list \<Rightarrow> string \<Rightarrow> pyval \<Rightarrow> (string \<times> pyval) list" where
  "setattr [] name v = [(name, v)]"
| "setattr ((k, w) # ns) name v =
     (if k = name then (k, v) # ns else (k, w) # setattr ns name v)"

record parse_state =
  namespace :: "(string \<times> pyval) list"
  seen_actions :: "Action list"
  extras :: "string list"

text \<open>
  \<^verbatim>\<open>take_action\<close>: the action is seen, its argument strings are converted, and the
  action is called: a store action sets its destination, the help action exits.
\<close>

type_synonym action_tuple = "Action \<times> string list \<times> string"

definition take_action ::
  "(string \<Rightarrow> int option) \<Rightarrow> (string \<Rightarrow> pyfloat option) \<Rightarrow> parse_state \<Rightarrow> action_tuple
     \<Rightarrow> error + parse_state" where
  "take_action py_int py_float st tup =
     (case tup of (action, argument_strings, option_string) \<Rightarrow>
        (let st = st\<lparr>seen_actions := seen_actions st @ [action]\<rparr>
         in bind (get_values py_int py_float action argument_strings) (\<lambda>argument_values.
              case action_class action of
                Store \<Rightarrow>
                  Inr (st\<lparr>namespace := setattr (namespace st) (dest action) argument_values\<rparr>)
              | Help \<Rightarrow> Inl (SystemExit 0))))"

fun take_actions ::
  "(string \<Rightarrow> int option) \<Rightarrow> (string \<Rightarrow> pyfloat option) \<Rightarrow> parse_state \<Rightarrow> action_tuple list
     \<Rightarrow> error + parse_state" where
  "take_actions py_int py_float st [] = Inr st"
| "take_actions py_int py_float st (tup # tups) =
     bind (take_action py_int py_float st tup) (\<lambda>st'. take_actions py_int py_float st' tups)"

text \<open>
  The loop of \<^verbatim>\<open>consume_optional\<close> for an option tuple with an action. With an
  explicit argument (\<^verbatim>\<open>--flag=value\<close>, \<^verbatim>\<open>-xvalue\<close>) the action must take exactly
  one argument, unless it is a single-dash option that takes none: then the explicit
  argument is read as further single-dash options (\<^verbatim>\<open>-xyz\<close>), and the loop goes on with
  the next of them. Without an explicit argument the action takes the strings that
  follow, as many as \<^verbatim>\<open>_match_argument\<close> says. The result is the list of actions to
  take with their argument strings, the number of following strings consumed, and the
  strings that are left over. Every round shortens the explicit argument.
\<close>

function match_optional ::
  "Action list \<Rightarrow> Action \<Rightarrow> string \<Rightarrow> string option \<Rightarrow> string option \<Rightarrow> arg_pattern list
     \<Rightarrow> string list \<Rightarrow> action_tuple list \<Rightarrow> error + (action_tuple list \<times> nat \<times> string list)" where
  "match_optional p action option_string sep explicit_arg pats arg_strings action_tuples =
     (case explicit_arg of
        Some explicit \<Rightarrow>
          bind (match_argument action [PatA]) (\<lambda>arg_count.
            if arg_count = 0 \<and> hd (tl option_string) \<noteq> CHR ''-'' \<and> explicit \<noteq> [] then
              (if (sep \<noteq> None \<and> sep \<noteq> Some []) \<or> hd explicit = CHR ''-''
               then Inl (SystemExit 2)
               else
                 (let action_tuples' = action_tuples @ [(action, [], option_string)];
                      option_string' = [hd option_string, hd explicit]
                  in case map_of (option_string_actions p) option_string' of
                       Some action' \<Rightarrow>
                         (let explicit' = tl explicit
                          in if explicit' = [] then
                               match_optional p action' option_string' None None pats
                                 arg_strings action_tuples'
                             else if hd explicit' = CHR ''='' then
                               match_optional p action' option_string' (Some ''='')
                                 (Some (tl explicit')) pats arg_strings action_tuples'
                             else
                               match_optional p action' option_string' (Some [])
                                 (Some explicit') pats arg_strings action_tuples')
                     | None \<Rightarrow> Inr (action_tuples', 0, [hd option_string # explicit])))
            else if arg_count = 1 then
              Inr (action_tuples @ [(action, [explicit], option_string)], 0, [])
            else Inl (SystemExit 2))
      | None \<Rightarrow>
          bind (match_argument action pats) (\<lambda>arg_count.
            Inr (action_tuples @ [(action, take arg_count arg_strings, option_string)],
                 arg_count, [])))"
  by pat_completeness auto
termination
  by (relation "measure (\<lambda>(p, action, option_string, sep, explicit_arg, rest).
        case explicit_arg of None \<Rightarrow> 0 | Some e \<Rightarrow> Suc (length e))")
    auto

declare match_optional.simps [simp del]

text \<open>
  \<^verbatim>\<open>consume_optional\<close>: an option the parser does not know is left over; for a known
  one the actions found by the loop are taken in their order. The result is the number
  of following strings consumed and the new state.
\<close>

definition consume_optional ::
  "Action list \<Rightarrow> (string \<Rightarrow> int option) \<Rightarrow> (string \<Rightarrow> pyfloat option) \<Rightarrow> string \<Rightarrow> option_tuple
     \<Rightarrow> (string \<times> arg_pattern) list \<Rightarrow> parse_state \<Rightarrow> error + (nat \<times> parse_state)" where
  "consume_optional p py_int py_float arg_string option_tuple rest st =
     (case option_tuple of
        (None, _) \<Rightarrow> Inr (0, st\<lparr>extras := extras st @ [arg_string]\<rparr>)
      | (Some action, option_string, sep, explicit_arg) \<Rightarrow>
          bind (match_optional p action option_string sep explicit_arg (map snd rest)
                  (map fst rest) []) (\<lambda>(action_tuples, arg_count, unknown).
            bind (take_actions py_int py_float (st\<lparr>extras := extras st @ unknown\<rparr>)
                    action_tuples) (\<lambda>st'. Inr (arg_count, st'))))"

text \<open>
  The second loop of \<^verbatim>\<open>_parse_known_args\<close>, from left to right. The parser has no
  positional argument, so that every string which is not an option and which no
  option consumes is left over.
\<close>

function consume ::
  "Action list \<Rightarrow> (string \<Rightarrow> int option) \<Rightarrow> (string \<Rightarrow> pyfloat option)
     \<Rightarrow> (string \<times> arg_pattern) list \<Rightarrow> parse_state \<Rightarrow> error + parse_state" where
  "consume p py_int py_float [] st = Inr st"
| "consume p py_int py_float ((arg_string, pat) # rest) st =
     (case pat of
        PatO option_tuple \<Rightarrow>
          (case consume_optional p py_int py_float arg_string option_tuple rest st of
             Inl e \<Rightarrow> Inl e
           | Inr (arg_count, st') \<Rightarrow> consume p py_int py_float (drop arg_count rest) st')
      | _ \<Rightarrow> consume p py_int py_float rest (st\<lparr>extras := extras st @ [arg_string]\<rparr>))"
  by pat_completeness auto
termination
  by (relation "measure (\<lambda>(p, py_int, py_float, pats, st). length pats)") auto

text \<open>
  \<^verbatim>\<open>parse_known_args\<close>: the namespace starts with the default of every action whose
  destination and default are not suppressed; the command line is classified and
  consumed; a required action that has not been seen is an error. (No default of this
  parser is a string, so that no default is converted afterwards.)
  \<^verbatim>\<open>parse_args\<close>: strings left over are an error. \<^verbatim>\<open>get_args\<close> is \<^verbatim>\<open>parse_args\<close> of
  the parser above.
\<close>

definition hasattr :: "(string \<times> pyval) list \<Rightarrow> string \<Rightarrow> bool" where
  "hasattr ns name = (map_of ns name \<noteq> None)"

definition parse_known_args ::
  "Action list \<Rightarrow> (string \<Rightarrow> int option) \<Rightarrow> (string \<Rightarrow> pyfloat option) \<Rightarrow> string list
     \<Rightarrow> error + ((string \<times> pyval) list \<times> string list)" where
  "parse_known_args p py_int py_float args =
     (let namespace0 =
            fold (\<lambda>action ns.
                   if dest action \<noteq> SUPPRESS \<and> \<not> hasattr ns (dest action)
                      \<and> default action \<noteq> PStr SUPPRESS
                   then setattr ns (dest action) (default action) else ns) p []
      in bind (arg_strings_pattern p args) (\<lambda>pats.
         bind (consume p py_int py_float pats
                 \<lparr>namespace = namespace0, seen_actions = [], extras = []\<rparr>) (\<lambda>st.
           let required_actions =
                 filter (\<lambda>action. action \<notin> set (seen_actions st) \<and> required action) p
           in if required_actions \<noteq> [] then Inl (SystemExit 2)
              else Inr (namespace st, extras st))))"

definition parse_args ::
  "Action list \<Rightarrow> (string \<Rightarrow> int option) \<Rightarrow> (string \<Rightarrow> pyfloat option) \<Rightarrow> string list
     \<Rightarrow> error + (string \<times> pyval) list" where
  "parse_args p py_int py_float args =
     bind (parse_known_args p py_int py_float args) (\<lambda>(ns, argv).
       if argv \<noteq> [] then Inl (SystemExit 2) else Inr ns)"

definition get_args ::
  "(string \<Rightarrow> int option) \<Rightarrow> (string \<Rightarrow> pyfloat option) \<Rightarrow> string list
     \<Rightarrow> error + (string \<times> pyval) list" where
  "get_args py_int py_float argv = parse_args parser py_int py_float argv"

declare arg_strings_pattern.simps [simp del]
declare consume.simps [simp del]

subsection \<open>The parser unfolded\<close>

text \<open>
  The recursive equations of the two loops are applied by name in the proofs below.
\<close>

lemma parser_actions:
  "parser =
     [HelpAction,
      StoreAction ''--train-files'' N_OneOrMore True T_None PNone,
      StoreAction ''--eval-files'' N_OneOrMore True T_None PNone,
      StoreAction ''--job-dir'' N_None True T_None PNone,
      StoreAction ''--train-steps'' N_None False T_int (PInt 400),
      StoreAction ''--eval-steps'' N_None False T_int (PInt 100),
      StoreAction ''--num-epochs'' N_None False T_int (PInt 200),
      StoreAction ''--learning-rate'' N_None False T_float
        (PFloat (Finite (5764607523034235 / 2 ^ 59))),
      StoreAction ''--train-batch-size'' N_None False T_int (PInt 32),
      StoreAction ''--eval-batch-size'' N_None False T_int (PInt 32)]"
  by (simp add: parser_def ArgumentParser_def add_argument_def Let_def)

lemma StoreAction_fields:
  "option_strings (StoreAction s n r t d) = [s]"
  "dest (StoreAction s n r t d) = dest_of s"
  "nargs (StoreAction s n r t d) = n"
  "required (StoreAction s n r t d) = r"
  "type_func (StoreAction s n r t d) = t"
  "default (StoreAction s n r t d) = d"
  "action_class (StoreAction s n r t d) = Store"
  by (simp_all add: StoreAction_def)

lemma HelpAction_fields:
  "option_strings HelpAction = [''-h'', ''--help'']"
  "dest HelpAction = SUPPRESS"
  "nargs HelpAction = N_Zero"
  "required HelpAction = False"
  "default HelpAction = PStr SUPPRESS"
  "action_class HelpAction = Help"
  by (simp_all add: HelpAction_def)

lemma option_string_actions_parser:
  "option_string_actions parser =
     [(''-h'', HelpAction), (''--help'', HelpAction),
      (''--train-files'', StoreAction ''--train-files'' N_OneOrMore True T_None PNone),
      (''--eval-files'', StoreAction ''--eval-files'' N_OneOrMore True T_None PNone),
      (''--job-dir'', StoreAction ''--job-dir'' N_None True T_None PNone),
      (''--train-steps'', StoreAction ''--train-steps'' N_None False T_int (PInt 400)),
      (''--eval-steps'', StoreAction ''--eval-steps'' N_None False T_int (PInt 100)),
      (''--num-epochs'', StoreAction ''--num-epochs'' N_None False T_int (PInt 200)),
      (''--learning-rate'', StoreAction ''--learning-rate'' N_None False T_float
         (PFloat (Finite (5764607523034235 / 2 ^ 59)))),
      (''--train-batch-size'', StoreAction ''--train-batch-size'' N_None False T_int (PInt 32)),
      (''--eval-batch-size'', StoreAction ''--eval-batch-size'' N_None False T_int (PInt 32))]"
  by (simp add: option_string_actions_def parser_actions StoreAction_fields HelpAction_fields)

lemma dests:
  "dest_of ''--train-files'' = ''train_files''"
  "dest_of ''--eval-files'' = ''eval_files''"
  "dest_of ''--job-dir'' = ''job_dir''"
  "dest_of ''--train-steps'' = ''train_steps''"
  "dest_of ''--eval-steps'' = ''eval_steps''"
  "dest_of ''--num-epochs'' = ''num_epochs''"
  "dest_of ''--learning-rate'' = ''learning_rate''"
  "dest_of ''--train-batch-size'' = ''train_batch_size''"
  "dest_of ''--eval-batch-size'' = ''eval_batch_size''"
  by (simp_all add: dest_of_def)

text \<open>The namespace before the command line is read: every destination with its default.\<close>

definition defaults :: "(string \<times> pyval) list" where
  "defaults =
     [(''train_files'', PNone), (''eval_files'', PNone), (''job_dir'', PNone),
      (''train_steps'', PInt 400), (''eval_steps'', PInt 100), (''num_epochs'', PInt 200),
      (''learning_rate'', PFloat (Finite (5764607523034235 / 2 ^ 59))),
      (''train_batch_size'', PInt 32), (''eval_batch_size'', PInt 32)]"

lemma namespace0:
  "fold (\<lambda>action ns.
           if dest action \<noteq> SUPPRESS \<and> \<not> hasattr ns (dest action)
              \<and> default action \<noteq> PStr SUPPRESS
           then setattr ns (dest action) (default action) else ns) parser [] = defaults"
  by (simp add: parser_actions StoreAction_fields HelpAction_fields dests hasattr_def
      SUPPRESS_def defaults_def)

subsection \<open>A flag with its values\<close>














lemma StoreAction_eq:
  "(StoreAction s n r t d = StoreAction s' n' r' t' d') \<longleftrightarrow>
     s = s' \<and> n = n' \<and> r = r' \<and> t = t' \<and> d = d'"
  by (auto simp add: StoreAction_def)

lemma StoreAction_not_HelpAction:
  "StoreAction s n r t d \<noteq> HelpAction" "HelpAction \<noteq> StoreAction s n r t d"
  by (simp_all add: StoreAction_def HelpAction_def)

subsection \<open>Only the required flags\<close>



subsection \<open>Which actions a command line can reach\<close>

text \<open>
  The actions registered under an option string of two characters: those that a
  cluster of single-dash options (\<^verbatim>\<open>-xyz\<close>) can reach.
\<close>

definition short_actions :: "Action list \<Rightarrow> Action set" where
  "short_actions p = {a. \<exists>x y. map_of (option_string_actions p) [x, y] = Some a}"

lemma match_argument_raises: "match_argument action pats = Inl e \<Longrightarrow> e = SystemExit 2"
  by (auto simp add: match_argument_def Let_def split: nargs.splits list.splits
      arg_pattern.splits if_splits)

lemma match_argument_zero:
  "match_argument action [PatA] = Inr n \<Longrightarrow> (n = 0 \<longleftrightarrow> nargs action = N_Zero)"
  by (auto simp add: match_argument_def Let_def split: nargs.splits if_splits)

lemma get_value_raises: "get_value py_int py_float action s = Inl e \<Longrightarrow> e = SystemExit 2"
  by (auto simp add: get_value_def split: type_func.splits option.splits)

lemma map_raise_raises:
  "(\<And>x e. f x = Inl e \<Longrightarrow> e = SystemExit 2) \<Longrightarrow> map_raise f xs = Inl e \<Longrightarrow> e = SystemExit 2"
  by (induction xs arbitrary: e) (auto simp add: bind_def split: sum.splits)

lemma map_raise_get_value_raises:
  "map_raise (get_value py_int py_float action) xs = Inl e \<Longrightarrow> e = SystemExit 2"
  by (erule map_raise_raises [rotated]) (rule get_value_raises)

lemma get_values_raises: "get_values py_int py_float action args = Inl e \<Longrightarrow> e = SystemExit 2"
  by (auto simp add: get_values_def bind_def split: if_splits sum.splits
      dest: get_value_raises map_raise_get_value_raises)

lemma take_action_result:
  "take_action py_int py_float st (action, args, option_string) = r \<Longrightarrow>
     (case r of
        Inl e \<Rightarrow> e = SystemExit 2 \<or> (e = SystemExit 0 \<and> action_class action = Help)
      | Inr st' \<Rightarrow> set (seen_actions st') = insert action (set (seen_actions st)))"
  by (auto simp add: take_action_def bind_def Let_def get_values_raises
      split: sum.splits action_class.splits)

lemma take_actions_result:
  "take_actions py_int py_float st tups = r \<Longrightarrow>
     (case r of
        Inl e \<Rightarrow> e = SystemExit 2 \<or> (e = SystemExit 0 \<and> (\<exists>a\<in>fst ` set tups. action_class a = Help))
      | Inr st' \<Rightarrow> set (seen_actions st') = set (seen_actions st) \<union> fst ` set tups)"
proof (induction tups arbitrary: st r)
  case Nil
  then show ?case by auto
next
  case (Cons tup tups)
  obtain action args option_string where tup: "tup = (action, args, option_string)"
    by (cases tup)
  show ?case
  proof (cases "take_action py_int py_float st tup")
    case (Inl e)
    with Cons.prems take_action_result [of py_int py_float st action args option_string "Inl e"]
    show ?thesis by (auto simp add: bind_def tup)
  next
    case (Inr st')
    with take_action_result [of py_int py_float st action args option_string "Inr st'"]
    have seen: "set (seen_actions st') = insert action (set (seen_actions st))"
      by (simp add: tup)
    from Inr Cons.prems have "take_actions py_int py_float st' tups = r"
      by (simp add: bind_def)
    from Cons.IH [OF this] seen show ?thesis
      by (auto simp add: tup split: sum.splits)
  qed
qed

text \<open>
  The loop of \<^verbatim>\<open>consume_optional\<close> exits with status 2 or returns actions of a set \<open>S\<close>,
  when it starts from an action of \<open>S\<close> and \<open>S\<close> has every action that a cluster can reach.
\<close>

definition tuples_within ::
  "Action set \<Rightarrow> error + (action_tuple list \<times> nat \<times> string list) \<Rightarrow> bool" where
  "tuples_within S r =
     (case r of Inl e \<Rightarrow> e = SystemExit 2 | Inr (tups, n, unknown) \<Rightarrow> fst ` set tups \<subseteq> S)"

lemma tuples_within_exit: "tuples_within S (Inl (SystemExit 2))"
  by (simp add: tuples_within_def)

lemma short_actionsI: "map_of (option_string_actions p) [x, y] = Some a \<Longrightarrow> a \<in> short_actions p"
  by (auto simp add: short_actions_def)

lemma match_optional_within:
  "fst ` set acc \<subseteq> S \<Longrightarrow> action \<in> S \<Longrightarrow> (nargs action = N_Zero \<Longrightarrow> short_actions p \<subseteq> S) \<Longrightarrow>
     tuples_within S (match_optional p action option_string sep explicit_arg pats arg_strings acc)"
proof (induction p action option_string sep explicit_arg pats arg_strings acc
    rule: match_optional.induct)
  case (1 p action option_string sep explicit_arg pats arg_strings acc)
  note IH = "1.IH" and acc = "1.prems"(1) and action = "1.prems"(2) and short = "1.prems"(3)
  show ?case
  proof (cases explicit_arg)
    case None
    with acc action show ?thesis
      by (subst match_optional.simps)
        (auto simp add: tuples_within_def bind_def split: sum.splits dest: match_argument_raises)
  next
    case (Some explicit)
    show ?thesis
    proof (cases "match_argument action [PatA]")
      case (Inl e)
      with Some show ?thesis
        by (subst match_optional.simps)
          (auto simp add: tuples_within_def bind_def dest: match_argument_raises)
    next
      case (Inr arg_count)
      show ?thesis
      proof (cases "arg_count = 0 \<and> hd (tl option_string) \<noteq> CHR ''-'' \<and> explicit \<noteq> []")
        case False
        with Some Inr acc action show ?thesis
          by (subst match_optional.simps) (auto simp add: tuples_within_def bind_def)
      next
        case True
        with Inr have zero: "nargs action = N_Zero"
          using match_argument_zero [of action arg_count] by simp
        note S = short [OF zero]
        let ?acc = "acc @ [(action, [], option_string)]"
        let ?os = "[hd option_string, hd explicit]"
        from acc action have acc': "fst ` set ?acc \<subseteq> S" by auto
        show ?thesis
        proof (cases "(sep \<noteq> None \<and> sep \<noteq> Some []) \<or> hd explicit = CHR ''-''")
          case True
          with Some Inr \<open>arg_count = 0 \<and> _\<close> show ?thesis
            by (subst match_optional.simps) (auto simp add: tuples_within_def bind_def)
        next
          case no_sep: False
          show ?thesis
          proof (cases "map_of (option_string_actions p) ?os")
            case None
            with Some Inr True no_sep acc' show ?thesis
              by (subst match_optional.simps) (auto simp add: tuples_within_def bind_def Let_def)
          next
            case found: (Some action')
            then have a': "action' \<in> S" using S short_actionsI by blast
            have rec: "tuples_within S
                (match_optional p action' ?os sep' ex' pats arg_strings ?acc)"
              if "(tl explicit = [] \<and> sep' = None \<and> ex' = None)
                \<or> (tl explicit \<noteq> [] \<and> hd (tl explicit) = CHR ''='' \<and> sep' = Some ''=''
                     \<and> ex' = Some (tl (tl explicit)))
                \<or> (tl explicit \<noteq> [] \<and> hd (tl explicit) \<noteq> CHR ''='' \<and> sep' = Some []
                     \<and> ex' = Some (tl explicit))" for sep' ex'
              using that
            proof (elim disjE conjE)
              assume "tl explicit = []" "sep' = None" "ex' = None"
              with IH(1) [OF Some True no_sep refl refl found refl _ acc' a' S]
              show ?thesis by simp
            next
              assume "tl explicit \<noteq> []" "hd (tl explicit) = CHR ''=''" "sep' = Some ''=''"
                "ex' = Some (tl (tl explicit))"
              with IH(2) [OF Some True no_sep refl refl found refl _ _ acc' a' S]
              show ?thesis by simp
            next
              assume "tl explicit \<noteq> []" "hd (tl explicit) \<noteq> CHR ''=''" "sep' = Some []"
                "ex' = Some (tl explicit)"
              with IH(3) [OF Some True no_sep refl refl found refl _ _ acc' a' S]
              show ?thesis by simp
            qed
            from Some Inr True no_sep found rec show ?thesis
              by (subst match_optional.simps) (simp add: bind_def Let_def tuples_within_exit)
          qed
        qed
      qed
    qed
  qed
qed

text \<open>
  The second loop as a whole: when every option tuple of the classified command line
  has its action in \<open>S\<close>, parsing exits with status 2, or with status 0 by a help action
  of \<open>S\<close>, or it sees actions of \<open>S\<close> only.
\<close>

definition exits_or_seen :: "Action set \<Rightarrow> parse_state \<Rightarrow> error + parse_state \<Rightarrow> bool" where
  "exits_or_seen S st r =
     (case r of
        Inl e \<Rightarrow> e = SystemExit 2 \<or> (e = SystemExit 0 \<and> (\<exists>a\<in>S. action_class a = Help))
      | Inr st' \<Rightarrow> set (seen_actions st') \<subseteq> set (seen_actions st) \<union> S)"

definition tuple_within :: "Action list \<Rightarrow> Action set \<Rightarrow> option_tuple \<Rightarrow> bool" where
  "tuple_within p S t =
     (case fst t of
        None \<Rightarrow> True
      | Some a \<Rightarrow> a \<in> S \<and> (nargs a = N_Zero \<longrightarrow> short_actions p \<subseteq> S))"

definition pats_within :: "Action list \<Rightarrow> Action set \<Rightarrow> (string \<times> arg_pattern) list \<Rightarrow> bool" where
  "pats_within p S pats = (\<forall>s t. (s, PatO t) \<in> set pats \<longrightarrow> tuple_within p S t)"

lemma consume_optional_within:
  assumes "tuple_within p S t"
  shows "case consume_optional p py_int py_float arg_string t rest st of
           Inl e \<Rightarrow> e = SystemExit 2 \<or> (e = SystemExit 0 \<and> (\<exists>a\<in>S. action_class a = Help))
         | Inr (n, st') \<Rightarrow> set (seen_actions st') \<subseteq> set (seen_actions st) \<union> S"
proof -
  obtain ao option_string sep explicit_arg where t: "t = (ao, option_string, sep, explicit_arg)"
    by (cases t)
  show ?thesis
  proof (cases ao)
    case None
    then show ?thesis by (simp add: t consume_optional_def)
  next
    case (Some action)
    with assms have a: "action \<in> S" and short: "nargs action = N_Zero \<Longrightarrow> short_actions p \<subseteq> S"
      by (simp_all add: tuple_within_def t)
    let ?m = "match_optional p action option_string sep explicit_arg (map snd rest)
                  (map fst rest) []"
    have within: "tuples_within S ?m"
      by (rule match_optional_within) (use a short in simp_all)
    show ?thesis
    proof (cases ?m)
      case (Inl e)
      with within show ?thesis
        by (simp add: t Some consume_optional_def bind_def tuples_within_def)
    next
      case (Inr res)
      obtain tups n unknown where res: "res = (tups, n, unknown)" by (cases res)
      from within Inr have sub: "fst ` set tups \<subseteq> S"
        by (simp add: tuples_within_def res)
      let ?st = "st\<lparr>extras := extras st @ unknown\<rparr>"
      from take_actions_result [of py_int py_float ?st tups, OF refl] sub
      have "case take_actions py_int py_float ?st tups of
              Inl e \<Rightarrow> e = SystemExit 2 \<or> (e = SystemExit 0 \<and> (\<exists>a\<in>S. action_class a = Help))
            | Inr st' \<Rightarrow> set (seen_actions st') \<subseteq> set (seen_actions st) \<union> S"
        by (auto split: sum.splits)
      with Inr show ?thesis
        by (auto simp add: t Some consume_optional_def bind_def res split: sum.splits)
    qed
  qed
qed

lemma pats_within_drop: "pats_within p S pats \<Longrightarrow> pats_within p S (drop n pats)"
  by (auto simp add: pats_within_def dest: in_set_dropD)

lemma consume_within:
  "pats_within p S pats \<Longrightarrow> exits_or_seen S st (consume p py_int py_float pats st)"
proof (induction p py_int py_float pats st rule: consume.induct)
  case (1 p py_int py_float st)
  show ?case by (simp add: consume.simps exits_or_seen_def)
next
  case (2 p py_int py_float arg_string pat rest st)
  from "2.prems" have rest: "pats_within p S rest"
    unfolding pats_within_def by (meson list.set_intros(2))
  show ?case
  proof (cases pat)
    case PatA
    with "2.IH"(1) [OF PatA rest] show ?thesis
      by (auto simp add: consume.simps exits_or_seen_def split: sum.splits)
  next
    case PatDash
    with "2.IH"(3) [OF PatDash rest] show ?thesis
      by (auto simp add: consume.simps exits_or_seen_def split: sum.splits)
  next
    case (PatO t)
    with "2.prems" [unfolded pats_within_def, rule_format, of arg_string t]
    have t: "tuple_within p S t" by simp
    note co = consume_optional_within [OF t, where py_int = py_int and py_float = py_float
        and arg_string = arg_string and rest = rest and st = st]
    show ?thesis
    proof (cases "consume_optional p py_int py_float arg_string t rest st")
      case (Inl e)
      with co show ?thesis
        by (simp add: consume.simps PatO exits_or_seen_def)
    next
      case (Inr res)
      obtain n st1 where res: "res = (n, st1)" by (cases res)
      from co Inr have seen1: "set (seen_actions st1) \<subseteq> set (seen_actions st) \<union> S"
        by (simp add: res)
      from "2.IH"(2) [OF PatO Inr res [symmetric] pats_within_drop [OF rest]]
      have "exits_or_seen S st1 (consume p py_int py_float (drop n rest) st1)" .
      with seen1 have "exits_or_seen S st (consume p py_int py_float (drop n rest) st1)"
        by (auto simp add: exits_or_seen_def split: sum.splits)
      with Inr show ?thesis
        by (simp add: consume.simps PatO res)
    qed
  qed
qed

subsection \<open>A flag that the command line supplies\<close>

text \<open>
  A string of the command line supplies a flag when its part before the first \<^verbatim>\<open>=\<close> is
  the flag or an abbreviation of it, that is a prefix of the flag of at least three
  characters: \<^verbatim>\<open>--job-dir\<close>, \<^verbatim>\<open>--job-dir=out\<close>, \<^verbatim>\<open>--job\<close>, \<^verbatim>\<open>--j=out\<close>. It asks for
  help when it starts with \<^verbatim>\<open>-h\<close> or supplies \<^verbatim>\<open>--help\<close>.
\<close>

definition supplies :: "string \<Rightarrow> string \<Rightarrow> bool" where
  "supplies option_string arg_string =
     (let given = takeWhile (\<lambda>c. c \<noteq> CHR ''='') arg_string
      in 2 < length given \<and> startswith option_string given)"

definition asks_help :: "string \<Rightarrow> bool" where
  "asks_help arg_string = (startswith arg_string ''-h'' \<or> supplies ''--help'' arg_string)"

lemma fst_partition_eq: "fst (partition_eq s) = takeWhile (\<lambda>c. c \<noteq> CHR ''='') s"
proof (cases "dropWhile (\<lambda>c. c \<noteq> CHR ''='') s = []")
  case True
  then have "\<forall>c\<in>set s. c \<noteq> CHR ''=''" by simp
  then have whole: "takeWhile (\<lambda>c. c \<noteq> CHR ''='') s = s" by simp
  show ?thesis
    unfolding partition_eq_def Let_def by (simp only: True whole if_True fst_conv simp_thms)
next
  case False
  then show ?thesis
    unfolding partition_eq_def Let_def by (simp only: if_False fst_conv)
qed

lemma startswith_takeWhile: "startswith s (takeWhile P s)"
  unfolding startswith_def by (induction s) simp_all

lemma startswith_refl: "startswith s s"
  by (simp add: startswith_def)

lemma keys_of_parser:
  assumes "(os, a) \<in> set (option_string_actions parser)"
  shows "os = ''-h'' \<or> (2 < length os \<and> startswith os ''--'' \<and> CHR ''='' \<notin> set os)"
  using assms unfolding option_string_actions_parser by (auto simp add: startswith_def)

lemma get_option_tuples_shape:
  assumes "get_option_tuples p tok = Inr ts"
  shows "\<exists>c1 rest. tok = CHR ''-'' # c1 # rest"
  using assms by (auto simp add: get_option_tuples_def split: list.splits if_splits)

lemma get_option_tuples_long:
  assumes "get_option_tuples p (CHR ''-'' # CHR ''-'' # rest) = Inr ts"
    and "(Some a, os, sep, ex) \<in> set ts"
  shows "(os, a) \<in> set (option_string_actions p) \<and>
         startswith os (takeWhile (\<lambda>c. c \<noteq> CHR ''='') (CHR ''-'' # CHR ''-'' # rest))"
proof -
  let ?tok = "CHR ''-'' # CHR ''-'' # rest"
  obtain sp ex' where part:
    "partition_eq ?tok = (takeWhile (\<lambda>c. c \<noteq> CHR ''='') ?tok, sp, ex')"
    using fst_partition_eq [of ?tok] by (cases "partition_eq ?tok") simp
  from assms(1) have "ts = concat (map (\<lambda>(s, action).
        if startswith s (takeWhile (\<lambda>c. c \<noteq> CHR ''='') ?tok)
        then [(Some action, s, if sp = [] then None else Some sp,
               if sp = [] then None else Some ex')]
        else []) (option_string_actions p))"
    unfolding get_option_tuples_def by (simp add: part del: takeWhile.simps)
  with assms(2) show ?thesis
    by (auto simp del: takeWhile.simps split: if_splits)
qed

lemma get_option_tuples_short:
  assumes "get_option_tuples p (CHR ''-'' # c1 # rest) = Inr ts" and "c1 \<noteq> CHR ''-''"
    and "(Some a, os, sep, ex) \<in> set ts"
  shows "(os, a) \<in> set (option_string_actions p) \<and>
         (os = [CHR ''-'', c1] \<or> startswith os (CHR ''-'' # c1 # rest))"
proof -
  from assms(1,2) have "ts = concat (map (\<lambda>(s, action).
        if s = [CHR ''-'', c1] then [(Some action, s, Some [], Some rest)]
        else if startswith s (CHR ''-'' # c1 # rest) then [(Some action, s, None, None)]
        else []) (option_string_actions p))"
    unfolding get_option_tuples_def by simp
  with assms(3) show ?thesis
    by (auto split: if_splits)
qed

lemma ambiguous_dashes:
  assumes "takeWhile (\<lambda>c. c \<noteq> CHR ''='') tok = ''--''" and "get_option_tuples parser tok = Inr ts"
  shows "length ts = 10"
proof -
  from takeWhile_dropWhile_id [of "\<lambda>c. c \<noteq> CHR ''=''" tok]
  have "CHR ''-'' # CHR ''-'' # dropWhile (\<lambda>c. c \<noteq> CHR ''='') tok = tok"
    unfolding assms(1) by simp
  then obtain rest where tok: "tok = CHR ''-'' # CHR ''-'' # rest"
    by (rule that [OF sym])
  obtain sp ex where part: "partition_eq (CHR ''-'' # CHR ''-'' # rest) = (''--'', sp, ex)"
    using fst_partition_eq [of tok] assms(1) unfolding tok
    by (cases "partition_eq (CHR ''-'' # CHR ''-'' # rest)") simp
  from assms(2) show ?thesis
    unfolding tok get_option_tuples_def
    by (auto simp add: part option_string_actions_parser startswith_def Let_def)
qed

lemma actions_of_parser:
  assumes "(os, a) \<in> set (option_string_actions parser)"
  shows "a \<in> set parser"
    and "a = HelpAction \<or> (action_class a = Store \<and> nargs a \<noteq> N_Zero \<and> os \<noteq> ''-h'')"
  using assms unfolding option_string_actions_parser
  by (auto simp add: StoreAction_fields parser_actions)

lemma short_actions_parser: "short_actions parser \<subseteq> {HelpAction}"
proof
  fix a assume "a \<in> short_actions parser"
  then obtain x y where "map_of (option_string_actions parser) [x, y] = Some a"
    by (auto simp add: short_actions_def)
  then have mem: "([x, y], a) \<in> set (option_string_actions parser)" by (rule map_of_SomeD)
  from keys_of_parser [OF mem] have "[x, y] = ''-h''" by auto
  with actions_of_parser(2) [OF mem] show "a \<in> {HelpAction}" by auto
qed

lemma startswith_Nil: "startswith s []"
  by (simp add: startswith_def)

lemma startswith_Cons: "startswith s (c # pre) \<longleftrightarrow> (\<exists>t. s = c # t \<and> startswith t pre)"
  by (cases s) (auto simp add: startswith_def)

lemma supplies_whole:
  assumes "2 < length s" and "CHR ''='' \<notin> set s"
  shows "supplies s s"
proof -
  from assms(2) have whole: "takeWhile (\<lambda>c. c \<noteq> CHR ''='') s = s" by auto
  show ?thesis
    unfolding supplies_def Let_def whole using assms(1) by (simp add: startswith_refl)
qed

lemma supplies_before:
  assumes "2 < length (takeWhile (\<lambda>c. c \<noteq> CHR ''='') s)"
    and "startswith os (takeWhile (\<lambda>c. c \<noteq> CHR ''='') s)"
  shows "supplies os s"
  using assms by (simp add: supplies_def Let_def)

text \<open>
  An option tuple of this parser names an option string that the classified string
  supplies, or the short help option.
\<close>

lemma parse_optional_parser:
  assumes "parse_optional parser tok = Inr (Some (Some a, os, sep, ex))"
  shows "(os, a) \<in> set (option_string_actions parser) \<and>
         (supplies os tok \<or> (os = ''-h'' \<and> startswith tok ''-h''))"
proof -
  let ?P = "\<lambda>c. c \<noteq> CHR ''=''"
  from assms have ne: "tok \<noteq> []" and dash: "hd tok = CHR ''-''"
    by (auto simp add: parse_optional_def split: if_splits)
  show ?thesis
  proof (cases "map_of (option_string_actions parser) tok")
    case (Some b)
    with assms ne dash have eq: "a = b" "os = tok" by (simp_all add: parse_optional_def)
    from Some have mem: "(tok, b) \<in> set (option_string_actions parser)" by (rule map_of_SomeD)
    from keys_of_parser [OF mem] show ?thesis
    proof
      assume "tok = ''-h''"
      with mem eq show ?thesis by (simp add: startswith_def)
    next
      assume "2 < length tok \<and> startswith tok ''--'' \<and> CHR ''='' \<notin> set tok"
      then have "supplies tok tok" by (simp add: supplies_whole)
      with mem eq show ?thesis by simp
    qed
  next
    case None
    obtain before sp after where part: "partition_eq tok = (before, sp, after)"
      by (cases "partition_eq tok")
    have before: "before = takeWhile ?P tok" using fst_partition_eq [of tok] part by simp
    from assms None ne dash have len: "length tok \<noteq> 1"
      by (auto simp add: parse_optional_def split: if_splits)
    show ?thesis
    proof (cases "if sp \<noteq> [] then map_of (option_string_actions parser) before else None")
      case (Some b)
      then have m: "map_of (option_string_actions parser) before = Some b"
        by (auto split: if_splits)
      from assms None ne dash len part Some have eq: "a = b" "os = before"
        by (simp_all add: parse_optional_def)
      from m have mem: "(before, b) \<in> set (option_string_actions parser)" by (rule map_of_SomeD)
      from keys_of_parser [OF mem] show ?thesis
      proof
        assume h: "before = ''-h''"
        have "startswith tok (takeWhile ?P tok)" by (rule startswith_takeWhile)
        with h before have "startswith tok ''-h''" by simp
        with mem eq h show ?thesis by simp
      next
        assume "2 < length before \<and> startswith before ''--'' \<and> CHR ''='' \<notin> set before"
        then have "supplies before tok"
          unfolding before by (intro supplies_before) (simp_all add: startswith_refl)
        with mem eq show ?thesis by simp
      qed
    next
      case no_explicit: None
      from assms None ne dash len part no_explicit
      obtain ts where ts: "get_option_tuples parser tok = Inr ts" and one: "length ts = 1"
        and first: "hd ts = (Some a, os, sep, ex)"
        by (auto simp add: parse_optional_def bind_def split: if_splits sum.splits)
      then have mem: "(Some a, os, sep, ex) \<in> set ts" by (cases ts) auto
      from get_option_tuples_shape [OF ts] obtain c1 rest where tok: "tok = CHR ''-'' # c1 # rest"
        by blast
      show ?thesis
      proof (cases "c1 = CHR ''-''")
        case True
        from get_option_tuples_long [OF ts [unfolded tok True] mem]
        have key: "(os, a) \<in> set (option_string_actions parser)"
          and sw: "startswith os (takeWhile ?P tok)" by (simp_all add: tok True)
        have "takeWhile ?P tok \<noteq> ''--''"
          using ambiguous_dashes [OF _ ts] one by auto
        moreover have "takeWhile ?P tok = CHR ''-'' # CHR ''-'' # takeWhile ?P rest"
          by (simp add: tok True)
        ultimately have "2 < length (takeWhile ?P tok)" by (cases "takeWhile ?P rest") auto
        with sw have "supplies os tok" by (intro supplies_before)
        with key show ?thesis by simp
      next
        case False
        from get_option_tuples_short [OF ts [unfolded tok] False mem]
        have key: "(os, a) \<in> set (option_string_actions parser)"
          and short: "os = [CHR ''-'', c1] \<or> startswith os (CHR ''-'' # c1 # rest)" by simp_all
        from keys_of_parser [OF key] short False have "os = ''-h'' \<and> c1 = CHR ''h''"
          by (auto simp add: startswith_Cons startswith_Nil)
        with key show ?thesis by (simp add: tok startswith_def)
      qed
    qed
  qed
qed

subsection \<open>A required flag is missing\<close>

lemma get_option_tuples_raises: "get_option_tuples p s = Inl e \<Longrightarrow> e = SystemExit 2"
  by (auto simp add: get_option_tuples_def Let_def split: list.splits if_splits prod.splits)

lemma parse_optional_raises: "parse_optional p s = Inl e \<Longrightarrow> e = SystemExit 2"
  by (auto simp add: parse_optional_def bind_def Let_def
      split: if_splits option.splits prod.splits sum.splits dest: get_option_tuples_raises)

lemma arg_strings_pattern_raises: "arg_strings_pattern p argv = Inl e \<Longrightarrow> e = SystemExit 2"
proof (induction argv arbitrary: e)
  case Nil
  then show ?case by (simp add: arg_strings_pattern.simps)
next
  case (Cons s rest)
  then show ?case
    by (auto simp add: arg_strings_pattern.simps bind_def split: if_splits sum.splits
        dest: parse_optional_raises)
qed

lemma arg_strings_pattern_member:
  "arg_strings_pattern p argv = Inr pats \<Longrightarrow> (s, PatO t) \<in> set pats \<Longrightarrow>
     s \<in> set argv \<and> parse_optional p s = Inr (Some t)"
proof (induction argv arbitrary: pats)
  case Nil
  then show ?case by (simp add: arg_strings_pattern.simps)
next
  case (Cons x rest)
  show ?case
  proof (cases "x = ''--''")
    case True
    with Cons.prems show ?thesis by (auto simp add: arg_strings_pattern.simps)
  next
    case False
    with Cons.prems(1) obtain ot pats' where ot: "parse_optional p x = Inr ot"
      and rest: "arg_strings_pattern p rest = Inr pats'"
      and pats: "pats = (x, case ot of None \<Rightarrow> PatA | Some t \<Rightarrow> PatO t) # pats'"
      by (auto simp add: arg_strings_pattern.simps bind_def split: sum.splits)
    from Cons.prems(2) pats
    have "(s = x \<and> ot = Some t) \<or> (s, PatO t) \<in> set pats'"
      by (auto split: option.splits)
    with Cons.IH [OF rest] ot show ?thesis by auto
  qed
qed

lemma parse_args_missing:
  assumes "aF \<in> set p" and "required aF" and "aF \<notin> S"
    and "\<And>pats. arg_strings_pattern p argv = Inr pats \<Longrightarrow> pats_within p S pats"
  shows "parse_args p py_int py_float argv = Inl (SystemExit 2) \<or>
         (parse_args p py_int py_float argv = Inl (SystemExit 0) \<and> (\<exists>a\<in>S. action_class a = Help))"
proof (cases "arg_strings_pattern p argv")
  case (Inl e)
  with arg_strings_pattern_raises [of p argv e] show ?thesis
    by (simp add: parse_args_def parse_known_args_def bind_def Let_def)
next
  case (Inr pats)
  let ?st0 = "\<lparr>namespace =
      fold (\<lambda>action ns.
             if dest action \<noteq> SUPPRESS \<and> \<not> hasattr ns (dest action)
                \<and> default action \<noteq> PStr SUPPRESS
             then setattr ns (dest action) (default action) else ns) p [],
      seen_actions = [], extras = []\<rparr>"
  from consume_within [OF assms(4) [OF Inr]]
  have w: "exits_or_seen S ?st0 (consume p py_int py_float pats ?st0)" .
  show ?thesis
  proof (cases "consume p py_int py_float pats ?st0")
    case (Inl e)
    with w Inr show ?thesis
      by (auto simp add: parse_args_def parse_known_args_def bind_def Let_def exits_or_seen_def)
  next
    case st: (Inr st)
    with w have "set (seen_actions st) \<subseteq> S" by (simp add: exits_or_seen_def)
    with assms(1-3)
    have "aF \<in> set (filter (\<lambda>action. action \<notin> set (seen_actions st) \<and> required action) p)"
      by auto
    then have "filter (\<lambda>action. action \<notin> set (seen_actions st) \<and> required action) p \<noteq> []"
      by (metis empty_iff empty_set)
    with Inr st show ?thesis
      by (simp add: parse_args_def parse_known_args_def bind_def Let_def)
  qed
qed

lemma required_flag_action:
  assumes "flag \<in> {''--train-files'', ''--eval-files'', ''--job-dir''}"
  shows "\<exists>aF. aF \<in> set parser \<and> required aF \<and> aF \<noteq> HelpAction \<and>
           (\<forall>os. (os, aF) \<in> set (option_string_actions parser) \<longrightarrow> os = flag)"
proof -
  have "\<exists>n. StoreAction flag n True T_None PNone \<in> set parser"
    using assms by (auto simp add: parser_actions)
  then obtain n where mem: "StoreAction flag n True T_None PNone \<in> set parser" ..
  have "os = flag" if "(os, StoreAction flag n True T_None PNone) \<in> set (option_string_actions parser)"
    for os
    using that unfolding option_string_actions_parser
    by (auto simp add: StoreAction_eq StoreAction_not_HelpAction)
  with mem show ?thesis
    by (intro exI [of _ "StoreAction flag n True T_None PNone"])
      (simp add: StoreAction_fields StoreAction_not_HelpAction)
qed

lemma help_keys:
  "(os, HelpAction) \<in> set (option_string_actions parser) \<Longrightarrow> os = ''-h'' \<or> os = ''--help''"
  unfolding option_string_actions_parser by (auto simp add: StoreAction_not_HelpAction)

lemma not_supplies_short: "\<not> supplies [x, y] s"
proof
  define given where "given = takeWhile (\<lambda>c. c \<noteq> CHR ''='') s"
  assume "supplies [x, y] s"
  then have long: "2 < length given" and "take (length given) [x, y] = given"
    by (simp_all add: supplies_def Let_def startswith_def given_def)
  from arg_cong [OF this(2), of length] have "min (length given) 2 = length given"
    by simp
  with long show False by simp
qed

lemma parser_classes: "a \<in> set parser \<Longrightarrow> action_class a = Help \<Longrightarrow> a = HelpAction"
  by (auto simp add: parser_actions StoreAction_fields)

text \<open>
  Claim C7. When no string of the command line supplies one of the required flags
  \<^verbatim>\<open>--train-files\<close>, \<^verbatim>\<open>--eval-files\<close> and \<^verbatim>\<open>--job-dir\<close>, parsing never returns a
  namespace: the process exits, for whatever else the command line holds and whatever
  the converters do. The exit status is 2, that of a usage error, when no string asks
  for help; when one does, the exit status is 2 or that of the help action, 0.
\<close>

theorem get_args_requires:
  assumes "flag \<in> {''--train-files'', ''--eval-files'', ''--job-dir''}"
    and "\<forall>arg\<in>set argv. \<not> supplies flag arg"
  shows "(get_args py_int py_float argv = Inl (SystemExit 2) \<or>
          get_args py_int py_float argv = Inl (SystemExit 0)) \<and>
         ((\<forall>arg\<in>set argv. \<not> asks_help arg) \<longrightarrow>
            get_args py_int py_float argv = Inl (SystemExit 2))"
proof -
  from required_flag_action [OF assms(1)] obtain aF
    where aF: "aF \<in> set parser" "required aF" "aF \<noteq> HelpAction"
      and only: "\<And>os. (os, aF) \<in> set (option_string_actions parser) \<Longrightarrow> os = flag"
    by blast
  have has_help: "HelpAction \<in> set parser" by (simp add: parser_actions)
  have classified: "(os, a) \<in> set (option_string_actions parser) \<and> a \<noteq> aF \<and>
      (a = HelpAction \<longrightarrow> asks_help s) \<and> s \<in> set argv"
    if pats: "arg_strings_pattern parser argv = Inr pats"
      and mem: "(s, PatO (Some a, os, sep, ex)) \<in> set pats" for pats s a os sep ex
  proof -
    from arg_strings_pattern_member [OF pats mem]
    have s: "s \<in> set argv" and "parse_optional parser s = Inr (Some (Some a, os, sep, ex))"
      by simp_all
    from parse_optional_parser [OF this(2)]
    have key: "(os, a) \<in> set (option_string_actions parser)"
      and given: "supplies os s \<or> (os = ''-h'' \<and> startswith s ''-h'')" by simp_all
    have "a \<noteq> aF"
    proof
      assume "a = aF"
      with key only have "os = flag" by simp
      with given assms s show False by auto
    qed
    moreover have "asks_help s" if "a = HelpAction"
    proof -
      from that key help_keys have "os = ''-h'' \<or> os = ''--help''" by simp
      with given show ?thesis by (auto simp add: asks_help_def not_supplies_short)
    qed
    ultimately show ?thesis using key s by simp
  qed
  have within: "pats_within parser (set parser - {aF}) pats"
    if pats: "arg_strings_pattern parser argv = Inr pats" for pats
    unfolding pats_within_def tuple_within_def
  proof (intro allI impI)
    fix s t assume mem: "(s, PatO t) \<in> set pats"
    obtain ao os sep ex where t: "t = (ao, os, sep, ex)" by (cases t)
    show "case fst t of None \<Rightarrow> True
          | Some a \<Rightarrow> a \<in> set parser - {aF} \<and>
              (nargs a = N_Zero \<longrightarrow> short_actions parser \<subseteq> set parser - {aF})"
    proof (cases ao)
      case None
      then show ?thesis by (simp add: t)
    next
      case (Some a)
      from classified [OF pats mem [unfolded t Some]] actions_of_parser(1) [of os a]
      have "a \<in> set parser - {aF}" by simp
      moreover from short_actions_parser has_help aF(3)
      have "short_actions parser \<subseteq> set parser - {aF}" by auto
      ultimately show ?thesis by (simp add: t Some)
    qed
  qed
  have "parse_args parser py_int py_float argv = Inl (SystemExit 2) \<or>
      (parse_args parser py_int py_float argv = Inl (SystemExit 0) \<and>
       (\<exists>a\<in>set parser - {aF}. action_class a = Help))"
  proof (rule parse_args_missing [OF aF(1,2)])
    show "aF \<notin> set parser - {aF}" by simp
    show "pats_within parser (set parser - {aF}) pats"
      if "arg_strings_pattern parser argv = Inr pats" for pats
      using that by (rule within)
  qed
  then have first: "get_args py_int py_float argv = Inl (SystemExit 2) \<or>
          get_args py_int py_float argv = Inl (SystemExit 0)"
    by (auto simp add: get_args_def)
  have second: "get_args py_int py_float argv = Inl (SystemExit 2)"
    if no_help: "\<forall>arg\<in>set argv. \<not> asks_help arg"
  proof -
    have within': "pats_within parser (set parser - {aF, HelpAction}) pats"
      if pats: "arg_strings_pattern parser argv = Inr pats" for pats
      unfolding pats_within_def tuple_within_def
    proof (intro allI impI)
      fix s t assume mem: "(s, PatO t) \<in> set pats"
      obtain ao os sep ex where t: "t = (ao, os, sep, ex)" by (cases t)
      show "case fst t of None \<Rightarrow> True
            | Some a \<Rightarrow> a \<in> set parser - {aF, HelpAction} \<and>
                (nargs a = N_Zero \<longrightarrow> short_actions parser \<subseteq> set parser - {aF, HelpAction})"
      proof (cases ao)
        case None
        then show ?thesis by (simp add: t)
      next
        case (Some a)
        from classified [OF pats mem [unfolded t Some]] no_help
        have key: "(os, a) \<in> set (option_string_actions parser)" and "a \<noteq> aF"
          and "a \<noteq> HelpAction" by auto
        with actions_of_parser [OF key] show ?thesis by (simp add: t Some)
      qed
    qed
    have "parse_args parser py_int py_float argv = Inl (SystemExit 2) \<or>
        (parse_args parser py_int py_float argv = Inl (SystemExit 0) \<and>
         (\<exists>a\<in>set parser - {aF, HelpAction}. action_class a = Help))"
    proof (rule parse_args_missing [OF aF(1,2)])
      show "aF \<notin> set parser - {aF, HelpAction}" by simp
      show "pats_within parser (set parser - {aF, HelpAction}) pats"
        if "arg_strings_pattern parser argv = Inr pats" for pats
        using that by (rule within')
    qed
    with parser_classes show ?thesis by (auto simp add: get_args_def)
  qed
  from first second show ?thesis by blast
qed

text \<open>
  The theorem at \<^verbatim>\<open>--train-files a.csv --eval-files b.csv\<close>, where the job directory
  is missing and nothing asks for help.
\<close>

theorem get_args_requires_witness:
  "get_args Map.empty Map.empty [''--train-files'', ''a.csv'', ''--eval-files'', ''b.csv'']
     = Inl (SystemExit 2)"
  using get_args_requires [of "''--job-dir''"
      "[''--train-files'', ''a.csv'', ''--eval-files'', ''b.csv'']" Map.empty Map.empty]
  by (simp add: supplies_def asks_help_def startswith_def)

text \<open>
  The claim as it is worded, with a usage error and a non-zero exit status, fails at
  the command line \<^verbatim>\<open>--help\<close>: it supplies none of the required flags, and the help
  action ends the process with status 0 before the required flags are checked.
\<close>

theorem get_args_help_counterexample:
  "\<not> supplies ''--train-files'' ''--help'' \<and> \<not> supplies ''--eval-files'' ''--help'' \<and>
   \<not> supplies ''--job-dir'' ''--help'' \<and>
   get_args Map.empty Map.empty [''--help''] = Inl (SystemExit 0)"
  by (simp add: supplies_def startswith_def
      get_args_def parse_args_def parse_known_args_def namespace0
      arg_strings_pattern.simps parse_optional_def option_string_actions_parser
      consume.simps consume_optional_def match_optional.simps match_argument_def
      HelpAction_fields take_action_def get_values_def bind_def Let_def)

end
